theory Spec2Isabelle
  imports Main "HOL-Library.Word"
begin

unbundle bit_operations_syntax

section \<open>Build configuration and common types\<close>

text \<open>
  The front end is compiled under a handful of preprocessor knobs and header constants
  whose values are fixed outside the translation unit. They are collected in one record
  and passed to every function that uses one of them, so that each \<^verbatim>\<open>#if\<close> of the
  source is an \<^verbatim>\<open>if\<close> of the model.
\<close>

type_synonym u8 = "8 word"
type_synonym u32 = "32 word"
type_synonym u64 = "64 word"

record knobs =
  USE_SIMD16_FRONTEND :: bool
  KNOB_SIMD_WIDTH :: u32
  KNOB_SIMD16_WIDTH :: u32
  KNOB_ENABLE_TOSS_POINTS :: bool
  KNOB_TOSS_QUEUE_FE :: bool
  KNOB_TOSS_FETCH :: bool
  KNOB_TOSS_VS :: bool
  MAX_SO_STREAMS :: u32
  SWR_VTX_NUM_SLOTS :: u32
  VERTEX_POSITION_SLOT :: u32
  VERTEX_ATTRIB_START_SLOT :: u32
  VERTEX_PRIMID_SLOT :: u32
  VERTEX_VIEWPORT_ARRAY_INDEX_SLOT :: u32
  sizeof_simdvertex :: u32
  sizeof_simd16vertex :: u32
  sizeof_simdvector :: u64

text \<open>
  The two shapes the source is written for, used in the worked examples below: an 8-wide
  front end (its lane-index vector has the eight entries 0 to 7), and the 16-wide one
  built from two 8-wide halves. The slot numbers and vertex sizes are sample values; no
  general result depends on them.
\<close>

definition simd8_knobs :: knobs where
  "simd8_knobs = \<lparr>USE_SIMD16_FRONTEND = False, KNOB_SIMD_WIDTH = 8, KNOB_SIMD16_WIDTH = 16,
     KNOB_ENABLE_TOSS_POINTS = False, KNOB_TOSS_QUEUE_FE = False, KNOB_TOSS_FETCH = False,
     KNOB_TOSS_VS = False, MAX_SO_STREAMS = 4, SWR_VTX_NUM_SLOTS = 32,
     VERTEX_POSITION_SLOT = 0, VERTEX_ATTRIB_START_SLOT = 1, VERTEX_PRIMID_SLOT = 22,
     VERTEX_VIEWPORT_ARRAY_INDEX_SLOT = 21,
     sizeof_simdvertex = 4096, sizeof_simd16vertex = 8192, sizeof_simdvector = 128\<rparr>"

definition simd16_knobs :: knobs where
  "simd16_knobs = simd8_knobs\<lparr>USE_SIMD16_FRONTEND := True\<rparr>"

text \<open>
  \<^verbatim>\<open>SWR_INVALID\<close> reports an invalid-usage condition and, unless a debugger breaks in,
  lets the function run on to its \<^verbatim>\<open>return\<close>. A result therefore records both:
  \<open>Invalid v\<close> is "the assertion was signalled, and \<open>v\<close> is what the function returns
  after it".
\<close>

datatype 'a checked = Normal 'a | Invalid 'a

fun retval :: "'a checked \<Rightarrow> 'a" where
  "retval (Normal v) = v"
| "retval (Invalid v) = v"

fun signalled :: "'a checked \<Rightarrow> bool" where
  "signalled (Normal v) = False"
| "signalled (Invalid v) = True"

section \<open>Topology arithmetic\<close>

datatype PRIMITIVE_TOPOLOGY =
    TOP_POINT_LIST
  | TOP_TRIANGLE_LIST
  | TOP_TRIANGLE_STRIP
  | TOP_TRIANGLE_FAN
  | TOP_TRIANGLE_DISC
  | TOP_QUAD_LIST
  | TOP_QUAD_STRIP
  | TOP_LINE_STRIP
  | TOP_LINE_LIST
  | TOP_LINE_LOOP
  | TOP_RECT_LIST
  | TOP_LINE_LIST_ADJ
  | TOP_LISTSTRIP_ADJ
  | TOP_TRI_LIST_ADJ
  | TOP_TRI_STRIP_ADJ
  | TOP_PATCHLIST_1
  | TOP_PATCHLIST_2
  | TOP_PATCHLIST_3
  | TOP_PATCHLIST_4
  | TOP_PATCHLIST_5
  | TOP_PATCHLIST_6
  | TOP_PATCHLIST_7
  | TOP_PATCHLIST_8
  | TOP_PATCHLIST_9
  | TOP_PATCHLIST_10
  | TOP_PATCHLIST_11
  | TOP_PATCHLIST_12
  | TOP_PATCHLIST_13
  | TOP_PATCHLIST_14
  | TOP_PATCHLIST_15
  | TOP_PATCHLIST_16
  | TOP_PATCHLIST_17
  | TOP_PATCHLIST_18
  | TOP_PATCHLIST_19
  | TOP_PATCHLIST_20
  | TOP_PATCHLIST_21
  | TOP_PATCHLIST_22
  | TOP_PATCHLIST_23
  | TOP_PATCHLIST_24
  | TOP_PATCHLIST_25
  | TOP_PATCHLIST_26
  | TOP_PATCHLIST_27
  | TOP_PATCHLIST_28
  | TOP_PATCHLIST_29
  | TOP_PATCHLIST_30
  | TOP_PATCHLIST_31
  | TOP_PATCHLIST_32
  | TOP_POLYGON
  | TOP_POINT_LIST_BF
  | TOP_LINE_STRIP_CONT
  | TOP_LINE_STRIP_BF
  | TOP_LINE_STRIP_CONT_BF
  | TOP_TRIANGLE_FAN_NOSTIPPLE
  | TOP_TRI_STRIP_REVERSE
  | TOP_PATCHLIST_BASE
  | TOP_UNKNOWN


text \<open>
  Modelled from the spec: the enumerators' numeric values are declared in state.h, which lies
  outside this translation unit. The spec says that patch lists have degree 1 to 32 and
  that the degree is encoded as the offset from a base enum value; this function is the
  expression \<^verbatim>\<open>mode - TOP_PATCHLIST_BASE\<close> on the 32 patch-list enumerators (it is
  used on no other).
\<close>

fun minus_TOP_PATCHLIST_BASE :: "PRIMITIVE_TOPOLOGY \<Rightarrow> u32" where
  "minus_TOP_PATCHLIST_BASE TOP_PATCHLIST_1 = 1"
| "minus_TOP_PATCHLIST_BASE TOP_PATCHLIST_2 = 2"
| "minus_TOP_PATCHLIST_BASE TOP_PATCHLIST_3 = 3"
| "minus_TOP_PATCHLIST_BASE TOP_PATCHLIST_4 = 4"
| "minus_TOP_PATCHLIST_BASE TOP_PATCHLIST_5 = 5"
| "minus_TOP_PATCHLIST_BASE TOP_PATCHLIST_6 = 6"
| "minus_TOP_PATCHLIST_BASE TOP_PATCHLIST_7 = 7"
| "minus_TOP_PATCHLIST_BASE TOP_PATCHLIST_8 = 8"
| "minus_TOP_PATCHLIST_BASE TOP_PATCHLIST_9 = 9"
| "minus_TOP_PATCHLIST_BASE TOP_PATCHLIST_10 = 10"
| "minus_TOP_PATCHLIST_BASE TOP_PATCHLIST_11 = 11"
| "minus_TOP_PATCHLIST_BASE TOP_PATCHLIST_12 = 12"
| "minus_TOP_PATCHLIST_BASE TOP_PATCHLIST_13 = 13"
| "minus_TOP_PATCHLIST_BASE TOP_PATCHLIST_14 = 14"
| "minus_TOP_PATCHLIST_BASE TOP_PATCHLIST_15 = 15"
| "minus_TOP_PATCHLIST_BASE TOP_PATCHLIST_16 = 16"
| "minus_TOP_PATCHLIST_BASE TOP_PATCHLIST_17 = 17"
| "minus_TOP_PATCHLIST_BASE TOP_PATCHLIST_18 = 18"
| "minus_TOP_PATCHLIST_BASE TOP_PATCHLIST_19 = 19"
| "minus_TOP_PATCHLIST_BASE TOP_PATCHLIST_20 = 20"
| "minus_TOP_PATCHLIST_BASE TOP_PATCHLIST_21 = 21"
| "minus_TOP_PATCHLIST_BASE TOP_PATCHLIST_22 = 22"
| "minus_TOP_PATCHLIST_BASE TOP_PATCHLIST_23 = 23"
| "minus_TOP_PATCHLIST_BASE TOP_PATCHLIST_24 = 24"
| "minus_TOP_PATCHLIST_BASE TOP_PATCHLIST_25 = 25"
| "minus_TOP_PATCHLIST_BASE TOP_PATCHLIST_26 = 26"
| "minus_TOP_PATCHLIST_BASE TOP_PATCHLIST_27 = 27"
| "minus_TOP_PATCHLIST_BASE TOP_PATCHLIST_28 = 28"
| "minus_TOP_PATCHLIST_BASE TOP_PATCHLIST_29 = 29"
| "minus_TOP_PATCHLIST_BASE TOP_PATCHLIST_30 = 30"
| "minus_TOP_PATCHLIST_BASE TOP_PATCHLIST_31 = 31"
| "minus_TOP_PATCHLIST_BASE TOP_PATCHLIST_32 = 32"
| "minus_TOP_PATCHLIST_BASE _ = 0"

text \<open>
  \<^verbatim>\<open>GetNumPrims(mode, numPrims)\<close>: the number of primitives in \<open>numPrims\<close> vertices or
  indices (the source names the count \<open>numPrims\<close> in both functions). All arithmetic is
  \<^verbatim>\<open>uint32_t\<close>.
\<close>

fun GetNumPrims :: "PRIMITIVE_TOPOLOGY \<Rightarrow> u32 \<Rightarrow> u32 checked" where
  "GetNumPrims TOP_POINT_LIST numPrims = Normal (numPrims)"
| "GetNumPrims TOP_TRIANGLE_LIST numPrims = Normal (numPrims div 3)"
| "GetNumPrims TOP_TRIANGLE_STRIP numPrims = Normal (if numPrims < 3 then 0 else numPrims - 2)"
| "GetNumPrims TOP_TRIANGLE_FAN numPrims = Normal (if numPrims < 3 then 0 else numPrims - 2)"
| "GetNumPrims TOP_TRIANGLE_DISC numPrims = Normal (if numPrims < 2 then 0 else numPrims - 1)"
| "GetNumPrims TOP_QUAD_LIST numPrims = Normal (numPrims div 4)"
| "GetNumPrims TOP_QUAD_STRIP numPrims = Normal (if numPrims < 4 then 0 else (numPrims - 2) div 2)"
| "GetNumPrims TOP_LINE_STRIP numPrims = Normal (if numPrims < 2 then 0 else numPrims - 1)"
| "GetNumPrims TOP_LINE_LIST numPrims = Normal (numPrims div 2)"
| "GetNumPrims TOP_LINE_LOOP numPrims = Normal (numPrims)"
| "GetNumPrims TOP_RECT_LIST numPrims = Normal (numPrims div 3)"
| "GetNumPrims TOP_LINE_LIST_ADJ numPrims = Normal (numPrims div 4)"
| "GetNumPrims TOP_LISTSTRIP_ADJ numPrims = Normal (if numPrims < 3 then 0 else numPrims - 3)"
| "GetNumPrims TOP_TRI_LIST_ADJ numPrims = Normal (numPrims div 6)"
| "GetNumPrims TOP_TRI_STRIP_ADJ numPrims = Normal (if numPrims < 4 then 0 else (numPrims div 2) - 2)"
| "GetNumPrims TOP_PATCHLIST_1 numPrims = Normal (numPrims div minus_TOP_PATCHLIST_BASE TOP_PATCHLIST_1)"
| "GetNumPrims TOP_PATCHLIST_2 numPrims = Normal (numPrims div minus_TOP_PATCHLIST_BASE TOP_PATCHLIST_2)"
| "GetNumPrims TOP_PATCHLIST_3 numPrims = Normal (numPrims div minus_TOP_PATCHLIST_BASE TOP_PATCHLIST_3)"
| "GetNumPrims TOP_PATCHLIST_4 numPrims = Normal (numPrims div minus_TOP_PATCHLIST_BASE TOP_PATCHLIST_4)"
| "GetNumPrims TOP_PATCHLIST_5 numPrims = Normal (numPrims div minus_TOP_PATCHLIST_BASE TOP_PATCHLIST_5)"
| "GetNumPrims TOP_PATCHLIST_6 numPrims = Normal (numPrims div minus_TOP_PATCHLIST_BASE TOP_PATCHLIST_6)"
| "GetNumPrims TOP_PATCHLIST_7 numPrims = Normal (numPrims div minus_TOP_PATCHLIST_BASE TOP_PATCHLIST_7)"
| "GetNumPrims TOP_PATCHLIST_8 numPrims = Normal (numPrims div minus_TOP_PATCHLIST_BASE TOP_PATCHLIST_8)"
| "GetNumPrims TOP_PATCHLIST_9 numPrims = Normal (numPrims div minus_TOP_PATCHLIST_BASE TOP_PATCHLIST_9)"
| "GetNumPrims TOP_PATCHLIST_10 numPrims = Normal (numPrims div minus_TOP_PATCHLIST_BASE TOP_PATCHLIST_10)"
| "GetNumPrims TOP_PATCHLIST_11 numPrims = Normal (numPrims div minus_TOP_PATCHLIST_BASE TOP_PATCHLIST_11)"
| "GetNumPrims TOP_PATCHLIST_12 numPrims = Normal (numPrims div minus_TOP_PATCHLIST_BASE TOP_PATCHLIST_12)"
| "GetNumPrims TOP_PATCHLIST_13 numPrims = Normal (numPrims div minus_TOP_PATCHLIST_BASE TOP_PATCHLIST_13)"
| "GetNumPrims TOP_PATCHLIST_14 numPrims = Normal (numPrims div minus_TOP_PATCHLIST_BASE TOP_PATCHLIST_14)"
| "GetNumPrims TOP_PATCHLIST_15 numPrims = Normal (numPrims div minus_TOP_PATCHLIST_BASE TOP_PATCHLIST_15)"
| "GetNumPrims TOP_PATCHLIST_16 numPrims = Normal (numPrims div minus_TOP_PATCHLIST_BASE TOP_PATCHLIST_16)"
| "GetNumPrims TOP_PATCHLIST_17 numPrims = Normal (numPrims div minus_TOP_PATCHLIST_BASE TOP_PATCHLIST_17)"
| "GetNumPrims TOP_PATCHLIST_18 numPrims = Normal (numPrims div minus_TOP_PATCHLIST_BASE TOP_PATCHLIST_18)"
| "GetNumPrims TOP_PATCHLIST_19 numPrims = Normal (numPrims div minus_TOP_PATCHLIST_BASE TOP_PATCHLIST_19)"
| "GetNumPrims TOP_PATCHLIST_20 numPrims = Normal (numPrims div minus_TOP_PATCHLIST_BASE TOP_PATCHLIST_20)"
| "GetNumPrims TOP_PATCHLIST_21 numPrims = Normal (numPrims div minus_TOP_PATCHLIST_BASE TOP_PATCHLIST_21)"
| "GetNumPrims TOP_PATCHLIST_22 numPrims = Normal (numPrims div minus_TOP_PATCHLIST_BASE TOP_PATCHLIST_22)"
| "GetNumPrims TOP_PATCHLIST_23 numPrims = Normal (numPrims div minus_TOP_PATCHLIST_BASE TOP_PATCHLIST_23)"
| "GetNumPrims TOP_PATCHLIST_24 numPrims = Normal (numPrims div minus_TOP_PATCHLIST_BASE TOP_PATCHLIST_24)"
| "GetNumPrims TOP_PATCHLIST_25 numPrims = Normal (numPrims div minus_TOP_PATCHLIST_BASE TOP_PATCHLIST_25)"
| "GetNumPrims TOP_PATCHLIST_26 numPrims = Normal (numPrims div minus_TOP_PATCHLIST_BASE TOP_PATCHLIST_26)"
| "GetNumPrims TOP_PATCHLIST_27 numPrims = Normal (numPrims div minus_TOP_PATCHLIST_BASE TOP_PATCHLIST_27)"
| "GetNumPrims TOP_PATCHLIST_28 numPrims = Normal (numPrims div minus_TOP_PATCHLIST_BASE TOP_PATCHLIST_28)"
| "GetNumPrims TOP_PATCHLIST_29 numPrims = Normal (numPrims div minus_TOP_PATCHLIST_BASE TOP_PATCHLIST_29)"
| "GetNumPrims TOP_PATCHLIST_30 numPrims = Normal (numPrims div minus_TOP_PATCHLIST_BASE TOP_PATCHLIST_30)"
| "GetNumPrims TOP_PATCHLIST_31 numPrims = Normal (numPrims div minus_TOP_PATCHLIST_BASE TOP_PATCHLIST_31)"
| "GetNumPrims TOP_PATCHLIST_32 numPrims = Normal (numPrims div minus_TOP_PATCHLIST_BASE TOP_PATCHLIST_32)"
| "GetNumPrims TOP_POLYGON numPrims = Invalid 0"
| "GetNumPrims TOP_POINT_LIST_BF numPrims = Invalid 0"
| "GetNumPrims TOP_LINE_STRIP_CONT numPrims = Invalid 0"
| "GetNumPrims TOP_LINE_STRIP_BF numPrims = Invalid 0"
| "GetNumPrims TOP_LINE_STRIP_CONT_BF numPrims = Invalid 0"
| "GetNumPrims TOP_TRIANGLE_FAN_NOSTIPPLE numPrims = Invalid 0"
| "GetNumPrims TOP_TRI_STRIP_REVERSE numPrims = Invalid 0"
| "GetNumPrims TOP_PATCHLIST_BASE numPrims = Invalid 0"
| "GetNumPrims TOP_UNKNOWN numPrims = Invalid 0"

text \<open>\<^verbatim>\<open>GetNumVerts(mode, numPrims)\<close>: the number of vertices of \<open>numPrims\<close> primitives.\<close>

fun GetNumVerts :: "PRIMITIVE_TOPOLOGY \<Rightarrow> u32 \<Rightarrow> u32 checked" where
  "GetNumVerts TOP_POINT_LIST numPrims = Normal (numPrims)"
| "GetNumVerts TOP_TRIANGLE_LIST numPrims = Normal (numPrims * 3)"
| "GetNumVerts TOP_TRIANGLE_STRIP numPrims = Normal (if numPrims \<noteq> 0 then numPrims + 2 else 0)"
| "GetNumVerts TOP_TRIANGLE_FAN numPrims = Normal (if numPrims \<noteq> 0 then numPrims + 2 else 0)"
| "GetNumVerts TOP_TRIANGLE_DISC numPrims = Normal (if numPrims \<noteq> 0 then numPrims + 1 else 0)"
| "GetNumVerts TOP_QUAD_LIST numPrims = Normal (numPrims * 4)"
| "GetNumVerts TOP_QUAD_STRIP numPrims = Normal (if numPrims \<noteq> 0 then numPrims * 2 + 2 else 0)"
| "GetNumVerts TOP_LINE_STRIP numPrims = Normal (if numPrims \<noteq> 0 then numPrims + 1 else 0)"
| "GetNumVerts TOP_LINE_LIST numPrims = Normal (numPrims * 2)"
| "GetNumVerts TOP_LINE_LOOP numPrims = Normal (numPrims)"
| "GetNumVerts TOP_RECT_LIST numPrims = Normal (numPrims * 3)"
| "GetNumVerts TOP_LINE_LIST_ADJ numPrims = Normal (numPrims * 4)"
| "GetNumVerts TOP_LISTSTRIP_ADJ numPrims = Normal (if numPrims \<noteq> 0 then numPrims + 3 else 0)"
| "GetNumVerts TOP_TRI_LIST_ADJ numPrims = Normal (numPrims * 6)"
| "GetNumVerts TOP_TRI_STRIP_ADJ numPrims = Normal (if numPrims \<noteq> 0 then (numPrims + 2) * 2 else 0)"
| "GetNumVerts TOP_PATCHLIST_1 numPrims = Normal (numPrims * minus_TOP_PATCHLIST_BASE TOP_PATCHLIST_1)"
| "GetNumVerts TOP_PATCHLIST_2 numPrims = Normal (numPrims * minus_TOP_PATCHLIST_BASE TOP_PATCHLIST_2)"
| "GetNumVerts TOP_PATCHLIST_3 numPrims = Normal (numPrims * minus_TOP_PATCHLIST_BASE TOP_PATCHLIST_3)"
| "GetNumVerts TOP_PATCHLIST_4 numPrims = Normal (numPrims * minus_TOP_PATCHLIST_BASE TOP_PATCHLIST_4)"
| "GetNumVerts TOP_PATCHLIST_5 numPrims = Normal (numPrims * minus_TOP_PATCHLIST_BASE TOP_PATCHLIST_5)"
| "GetNumVerts TOP_PATCHLIST_6 numPrims = Normal (numPrims * minus_TOP_PATCHLIST_BASE TOP_PATCHLIST_6)"
| "GetNumVerts TOP_PATCHLIST_7 numPrims = Normal (numPrims * minus_TOP_PATCHLIST_BASE TOP_PATCHLIST_7)"
| "GetNumVerts TOP_PATCHLIST_8 numPrims = Normal (numPrims * minus_TOP_PATCHLIST_BASE TOP_PATCHLIST_8)"
| "GetNumVerts TOP_PATCHLIST_9 numPrims = Normal (numPrims * minus_TOP_PATCHLIST_BASE TOP_PATCHLIST_9)"
| "GetNumVerts TOP_PATCHLIST_10 numPrims = Normal (numPrims * minus_TOP_PATCHLIST_BASE TOP_PATCHLIST_10)"
| "GetNumVerts TOP_PATCHLIST_11 numPrims = Normal (numPrims * minus_TOP_PATCHLIST_BASE TOP_PATCHLIST_11)"
| "GetNumVerts TOP_PATCHLIST_12 numPrims = Normal (numPrims * minus_TOP_PATCHLIST_BASE TOP_PATCHLIST_12)"
| "GetNumVerts TOP_PATCHLIST_13 numPrims = Normal (numPrims * minus_TOP_PATCHLIST_BASE TOP_PATCHLIST_13)"
| "GetNumVerts TOP_PATCHLIST_14 numPrims = Normal (numPrims * minus_TOP_PATCHLIST_BASE TOP_PATCHLIST_14)"
| "GetNumVerts TOP_PATCHLIST_15 numPrims = Normal (numPrims * minus_TOP_PATCHLIST_BASE TOP_PATCHLIST_15)"
| "GetNumVerts TOP_PATCHLIST_16 numPrims = Normal (numPrims * minus_TOP_PATCHLIST_BASE TOP_PATCHLIST_16)"
| "GetNumVerts TOP_PATCHLIST_17 numPrims = Normal (numPrims * minus_TOP_PATCHLIST_BASE TOP_PATCHLIST_17)"
| "GetNumVerts TOP_PATCHLIST_18 numPrims = Normal (numPrims * minus_TOP_PATCHLIST_BASE TOP_PATCHLIST_18)"
| "GetNumVerts TOP_PATCHLIST_19 numPrims = Normal (numPrims * minus_TOP_PATCHLIST_BASE TOP_PATCHLIST_19)"
| "GetNumVerts TOP_PATCHLIST_20 numPrims = Normal (numPrims * minus_TOP_PATCHLIST_BASE TOP_PATCHLIST_20)"
| "GetNumVerts TOP_PATCHLIST_21 numPrims = Normal (numPrims * minus_TOP_PATCHLIST_BASE TOP_PATCHLIST_21)"
| "GetNumVerts TOP_PATCHLIST_22 numPrims = Normal (numPrims * minus_TOP_PATCHLIST_BASE TOP_PATCHLIST_22)"
| "GetNumVerts TOP_PATCHLIST_23 numPrims = Normal (numPrims * minus_TOP_PATCHLIST_BASE TOP_PATCHLIST_23)"
| "GetNumVerts TOP_PATCHLIST_24 numPrims = Normal (numPrims * minus_TOP_PATCHLIST_BASE TOP_PATCHLIST_24)"
| "GetNumVerts TOP_PATCHLIST_25 numPrims = Normal (numPrims * minus_TOP_PATCHLIST_BASE TOP_PATCHLIST_25)"
| "GetNumVerts TOP_PATCHLIST_26 numPrims = Normal (numPrims * minus_TOP_PATCHLIST_BASE TOP_PATCHLIST_26)"
| "GetNumVerts TOP_PATCHLIST_27 numPrims = Normal (numPrims * minus_TOP_PATCHLIST_BASE TOP_PATCHLIST_27)"
| "GetNumVerts TOP_PATCHLIST_28 numPrims = Normal (numPrims * minus_TOP_PATCHLIST_BASE TOP_PATCHLIST_28)"
| "GetNumVerts TOP_PATCHLIST_29 numPrims = Normal (numPrims * minus_TOP_PATCHLIST_BASE TOP_PATCHLIST_29)"
| "GetNumVerts TOP_PATCHLIST_30 numPrims = Normal (numPrims * minus_TOP_PATCHLIST_BASE TOP_PATCHLIST_30)"
| "GetNumVerts TOP_PATCHLIST_31 numPrims = Normal (numPrims * minus_TOP_PATCHLIST_BASE TOP_PATCHLIST_31)"
| "GetNumVerts TOP_PATCHLIST_32 numPrims = Normal (numPrims * minus_TOP_PATCHLIST_BASE TOP_PATCHLIST_32)"
| "GetNumVerts TOP_POLYGON numPrims = Invalid 0"
| "GetNumVerts TOP_POINT_LIST_BF numPrims = Invalid 0"
| "GetNumVerts TOP_LINE_STRIP_CONT numPrims = Invalid 0"
| "GetNumVerts TOP_LINE_STRIP_BF numPrims = Invalid 0"
| "GetNumVerts TOP_LINE_STRIP_CONT_BF numPrims = Invalid 0"
| "GetNumVerts TOP_TRIANGLE_FAN_NOSTIPPLE numPrims = Invalid 0"
| "GetNumVerts TOP_TRI_STRIP_REVERSE numPrims = Invalid 0"
| "GetNumVerts TOP_PATCHLIST_BASE numPrims = Invalid 0"
| "GetNumVerts TOP_UNKNOWN numPrims = Invalid 0"

text \<open>
  \<^verbatim>\<open>NumVertsPerPrim(topology, includeAdjVerts)\<close>. The first switch has a
  \<^verbatim>\<open>default\<close> that signals \<^verbatim>\<open>SWR_INVALID\<close> and leaves \<open>numVerts = 0\<close>; the
  second switch then overrides the count for the four adjacency topologies.
\<close>

fun NumVertsPerPrim_base :: "PRIMITIVE_TOPOLOGY \<Rightarrow> u32 checked" where
  "NumVertsPerPrim_base TOP_POINT_LIST = Normal 1"
| "NumVertsPerPrim_base TOP_POINT_LIST_BF = Normal 1"
| "NumVertsPerPrim_base TOP_LINE_LIST = Normal 2"
| "NumVertsPerPrim_base TOP_LINE_STRIP = Normal 2"
| "NumVertsPerPrim_base TOP_LINE_LIST_ADJ = Normal 2"
| "NumVertsPerPrim_base TOP_LINE_LOOP = Normal 2"
| "NumVertsPerPrim_base TOP_LINE_STRIP_CONT = Normal 2"
| "NumVertsPerPrim_base TOP_LINE_STRIP_BF = Normal 2"
| "NumVertsPerPrim_base TOP_LISTSTRIP_ADJ = Normal 2"
| "NumVertsPerPrim_base TOP_TRIANGLE_LIST = Normal 3"
| "NumVertsPerPrim_base TOP_TRIANGLE_STRIP = Normal 3"
| "NumVertsPerPrim_base TOP_TRIANGLE_FAN = Normal 3"
| "NumVertsPerPrim_base TOP_TRI_LIST_ADJ = Normal 3"
| "NumVertsPerPrim_base TOP_TRI_STRIP_ADJ = Normal 3"
| "NumVertsPerPrim_base TOP_TRI_STRIP_REVERSE = Normal 3"
| "NumVertsPerPrim_base TOP_RECT_LIST = Normal 3"
| "NumVertsPerPrim_base TOP_QUAD_LIST = Normal 4"
| "NumVertsPerPrim_base TOP_QUAD_STRIP = Normal 4"
| "NumVertsPerPrim_base TOP_POLYGON = Invalid 0"
| "NumVertsPerPrim_base TOP_LINE_STRIP_CONT_BF = Invalid 0"
| "NumVertsPerPrim_base TOP_TRIANGLE_FAN_NOSTIPPLE = Invalid 0"
| "NumVertsPerPrim_base TOP_TRIANGLE_DISC = Invalid 0"
| "NumVertsPerPrim_base TOP_PATCHLIST_BASE = Invalid 0"
| "NumVertsPerPrim_base TOP_UNKNOWN = Invalid 0"
| "NumVertsPerPrim_base topology = Normal (minus_TOP_PATCHLIST_BASE topology)"

fun NumVertsPerPrim_adj :: "PRIMITIVE_TOPOLOGY \<Rightarrow> u32 \<Rightarrow> u32" where
  "NumVertsPerPrim_adj TOP_LISTSTRIP_ADJ numVerts = 4"
| "NumVertsPerPrim_adj TOP_LINE_LIST_ADJ numVerts = 4"
| "NumVertsPerPrim_adj TOP_TRI_STRIP_ADJ numVerts = 6"
| "NumVertsPerPrim_adj TOP_TRI_LIST_ADJ numVerts = 6"
| "NumVertsPerPrim_adj topology numVerts = numVerts"

definition NumVertsPerPrim :: "PRIMITIVE_TOPOLOGY \<Rightarrow> bool \<Rightarrow> u32 checked" where
  "NumVertsPerPrim topology includeAdjVerts =
     (let r = NumVertsPerPrim_base topology;
          numVerts = (if includeAdjVerts then NumVertsPerPrim_adj topology (retval r) else retval r)
      in if signalled r then Invalid numVerts else Normal numVerts)"

section \<open>SIMD batch scheduling\<close>

text \<open>
  \<^verbatim>\<open>GenMask(numBits)\<close>: \<^verbatim>\<open>(1U << numBits) - 1\<close>, asserted for \<open>numBits \<le> 32\<close>. The
  assertion lets 32 pass, where the shift of a 32-bit value is undefined in C; the shift is
  taken as the x86 instruction does it, with the count modulo 32, so that \<open>GenMask 32\<close> is
  0 and not the mask of all 32 bits.
\<close>

definition GenMask :: "u32 \<Rightarrow> u32 checked" where
  "GenMask numBits =
     (let m = push_bit (unat numBits mod 32) (1 :: u32) - 1
      in if numBits \<le> 32 then Normal m else Invalid m)"

text \<open>
  A SIMD lane mask (\<^verbatim>\<open>simdscalari\<close>) is the list of its lanes, lane 0 first; a lane is
  \<open>True\<close> when it is active.

  Modelled from the spec: \<^verbatim>\<open>vMask\<close> is declared in the SIMD utility header, outside
  this translation unit. It widens a bit mask to a lane mask: lane \<open>i\<close> is active exactly
  when bit \<open>i\<close> of the bit mask is set ("mask has exactly activeCount low bits set").
\<close>

type_synonym simdmask = "bool list"

definition vMask :: "knobs \<Rightarrow> u32 \<Rightarrow> simdmask" where
  "vMask k bits = map (\<lambda>i. bit bits i) [0 ..< unat (KNOB_SIMD_WIDTH k)]"

definition popcount :: "simdmask \<Rightarrow> nat" where
  "popcount lanes = length (filter (\<lambda>b. b) lanes)"

text \<open>\<^verbatim>\<open>GenerateMask(numItemsRemaining)\<close>: always \<^verbatim>\<open>KNOB_SIMD_WIDTH\<close> lanes wide.\<close>

definition GenerateMask :: "knobs \<Rightarrow> u32 \<Rightarrow> simdmask" where
  "GenerateMask k numItemsRemaining =
     (let numActive = (if numItemsRemaining \<ge> KNOB_SIMD_WIDTH k then KNOB_SIMD_WIDTH k
                       else numItemsRemaining);
          bits = (if numActive > 0 then push_bit (unat numActive) (1 :: u32) - 1 else 0)
      in vMask k bits)"

text \<open>
  \<^verbatim>\<open>GetNumInvocations(curIndex, maxIndex)\<close>: the width is \<^verbatim>\<open>KNOB_SIMD16_WIDTH\<close> in a
  SIMD16 front end and \<^verbatim>\<open>KNOB_SIMD_WIDTH\<close> otherwise.
\<close>

definition GetNumInvocations :: "knobs \<Rightarrow> u32 \<Rightarrow> u32 \<Rightarrow> u32" where
  "GetNumInvocations k curIndex maxIndex =
     (let remainder = maxIndex - curIndex
      in if USE_SIMD16_FRONTEND k
         then (if remainder \<ge> KNOB_SIMD16_WIDTH k then KNOB_SIMD16_WIDTH k else remainder)
         else (if remainder \<ge> KNOB_SIMD_WIDTH k then KNOB_SIMD_WIDTH k else remainder))"


section \<open>Shared front-end state\<close>

text \<open>
  A run of a stage ends in a result or is cut short: by a call through a null function
  pointer, by use of a null tessellator handle, or, in the model only, by running out of
  the fuel that bounds the loops driven by an external primitive assembler.
\<close>

datatype fe_abort = Fuel_exhausted | Null_function_pointer | Null_tessellator_handle

type_synonym addr = nat

text \<open>
  Fixed-size C arrays (\<^verbatim>\<open>soBuffer[4]\<close>, \<^verbatim>\<open>streamMasks[4]\<close>, the per-lane arrays) are
  functions from the index; the code only reads and writes indices inside the array.
\<close>

record SWR_STATS_FE =
  IaVertices :: u64
  IaPrimitives :: u64
  VsInvocations :: u64
  HsInvocations :: u64
  DsInvocations :: u64
  GsInvocations :: u64
  GsPrimitives :: u64
  SoPrimStorageNeeded :: "nat \<Rightarrow> u64"
  SoNumPrimsWritten :: "nat \<Rightarrow> u64"

text \<open>
  Modelled from the spec: \<^verbatim>\<open>UPDATE_STAT_FE(name, count)\<close> is a macro defined outside
  this translation unit; the spec says the stages increment the pipeline statistics
  counters, so the macro adds the 32-bit count to the named 64-bit counter.
\<close>

definition UPDATE_STAT_FE :: "u64 \<Rightarrow> u32 \<Rightarrow> u64" where
  "UPDATE_STAT_FE counter count = counter + ucast count"

record DYN_STATE =
  SoWriteOffset :: "nat \<Rightarrow> u32"
  SoWriteOffsetDirty :: "nat \<Rightarrow> bool"
  statsFE :: SWR_STATS_FE

section \<open>Stream-out\<close>

record SWR_STREAMOUT_BUFFER =
  pWriteOffset :: "addr option"
  soWriteEnable :: bool
  streamOffset :: u32

text \<open>
  The stream-out context handed to the JIT-compiled stream function. \<open>pBuffer i\<close> is the
  buffer \<^verbatim>\<open>state.soBuffer[i]\<close> itself: the context holds pointers to the API state's
  buffers, so what the stream function does to a buffer is what the write-back loop reads
  afterwards. \<open>pPrimData\<close> is \<open>None\<close> while the pointer is null and otherwise the content
  of the primitive data buffer, one 128-bit attribute per dword offset written.
\<close>

record 'v SWR_STREAMOUT_CONTEXT =
  pPrimData :: "(nat \<rightharpoonup> 'v) option"
  pBuffer :: "nat \<Rightarrow> SWR_STREAMOUT_BUFFER"
  numPrimsWritten :: u32
  numPrimStorageNeeded :: u32

type_synonym 'v PFN_SO_FUNC = "'v SWR_STREAMOUT_CONTEXT \<Rightarrow> 'v SWR_STREAMOUT_CONTEXT"

text \<open>What \<^verbatim>\<open>StreamOut\<close> reads of the primitive assembler it is given.\<close>

record 'v PA_SO_VIEW =
  so_binTopology :: PRIMITIVE_TOPOLOGY
  so_NumPrims :: u32
  AssembleSingle :: "u32 \<Rightarrow> u32 \<Rightarrow> nat \<Rightarrow> 'v"

text \<open>What \<^verbatim>\<open>StreamOut\<close> reads of the API state (the buffers are in the context above).\<close>

record 'v SO_API_STATE =
  streamMasks :: "nat \<Rightarrow> u32"
  pfnSoFunc :: "nat \<Rightarrow> 'v PFN_SO_FUNC option"

text \<open>
  What \<^verbatim>\<open>StreamOut\<close> changes: the memory behind the drivers' write-offset pointers, the
  draw context's dynamic state, the stream-out buffers and the primitive data buffer.
\<close>

record 'v so_world =
  mem :: "addr \<Rightarrow> u32"
  dynState :: DYN_STATE
  soBuffer :: "nat \<Rightarrow> SWR_STREAMOUT_BUFFER"
  primData :: "nat \<rightharpoonup> 'v"
  so_invalid :: bool

text \<open>
  Modelled from the spec: \<^verbatim>\<open>_BitScanForward\<close> is a compiler intrinsic. It reports
  whether the mask is non-zero and, if so, the index of its lowest set bit.
\<close>

definition BitScanForward :: "u32 \<Rightarrow> nat option" where
  "BitScanForward m = find (\<lambda>i. bit m i) [0 ..< 32]"

text \<open>The inner loop over the vertices of one primitive: one 128-bit store each.\<close>

definition store_prim_attrib ::
  "u32 \<Rightarrow> u32 \<Rightarrow> u32 \<Rightarrow> (nat \<Rightarrow> 'v) \<Rightarrow> (nat \<rightharpoonup> 'v) \<Rightarrow> (nat \<rightharpoonup> 'v)" where
  "store_prim_attrib soVertsPerPrim primDataDwordVertexStride primDataAttribOffset attrib pd =
     fold (\<lambda>v pd'. pd'(unat primDataAttribOffset + unat (of_nat v * primDataDwordVertexStride)
                         \<mapsto> attrib v))
          [0 ..< unat soVertsPerPrim] pd"

text \<open>
  The \<^verbatim>\<open>while (_BitScanForward(&slot, soMask))\<close> loop: every set bit of the stream's
  attribute mask, lowest first, is gathered and then cleared.
\<close>

function gather_attribs ::
  "knobs \<Rightarrow> 'v PA_SO_VIEW \<Rightarrow> u32 \<Rightarrow> u32 \<Rightarrow> u32 \<Rightarrow> u32 \<Rightarrow> (nat \<rightharpoonup> 'v) \<Rightarrow> (nat \<rightharpoonup> 'v)" where
  "gather_attribs k pa soVertsPerPrim primDataDwordVertexStride primIndex soMask pd =
     (case BitScanForward soMask of
        None \<Rightarrow> pd
      | Some slot \<Rightarrow>
          (let paSlot = of_nat slot + VERTEX_ATTRIB_START_SLOT k;
               attrib = AssembleSingle pa paSlot primIndex;
               primDataAttribOffset = (of_nat (slot * 4 * 4 div 4) :: u32);
               pd' = store_prim_attrib soVertsPerPrim primDataDwordVertexStride
                       primDataAttribOffset attrib pd
           in gather_attribs k pa soVertsPerPrim primDataDwordVertexStride primIndex
                (soMask AND NOT (push_bit slot 1)) pd'))"
  by pat_completeness auto
termination gather_attribs
proof (relation "measure (\<lambda>(k, pa, n, s, p, soMask, pd). unat soMask)", goal_cases)
  case 1
  show ?case by simp
next
  case prems: 2
  have found: "bit m slot" if "BitScanForward m = Some slot" for m slot
    using that by (auto simp: BitScanForward_def find_Some_iff)
  have cleared: "m AND NOT (push_bit slot 1) < m" if "bit m slot" for m :: u32 and slot
  proof -
    have le: "m AND NOT (push_bit slot 1) \<le> m" by (rule word_and_le2)
    have "\<not> bit (m AND NOT (push_bit slot 1)) slot"
      using that by (auto simp: bit_and_iff bit_not_iff bit_push_bit_iff bit_exp_iff
          dest: bit_imp_possible_bit)
    with that have "m AND NOT (push_bit slot 1) \<noteq> m" by auto
    with le show ?thesis by simp
  qed
  from prems show ?case
    by (auto dest!: found cleared simp: word_less_nat_alt)
qed

text \<open>
  The loop over the primitives of the assembler: gather, point the context at the
  primitive data, call the stream function. A null stream function is asserted against
  and then called, which ends the run.
\<close>

fun so_prims ::
  "knobs \<Rightarrow> 'v PA_SO_VIEW \<Rightarrow> 'v SO_API_STATE \<Rightarrow> u32 \<Rightarrow> u32 \<Rightarrow> u32 \<Rightarrow> nat list
   \<Rightarrow> (nat \<rightharpoonup> 'v) \<times> 'v SWR_STREAMOUT_CONTEXT
   \<Rightarrow> fe_abort + (nat \<rightharpoonup> 'v) \<times> 'v SWR_STREAMOUT_CONTEXT" where
  "so_prims k pa st streamIndex soVertsPerPrim stride [] s = Inr s"
| "so_prims k pa st streamIndex soVertsPerPrim stride (primIndex # rest) (pd, soContext) =
     (let soMask = streamMasks st (unat streamIndex);
          pd' = gather_attribs k pa soVertsPerPrim stride (of_nat primIndex) soMask pd;
          soContext' = soContext\<lparr>pPrimData := Some pd'\<rparr>
      in case pfnSoFunc st (unat streamIndex) of
           None \<Rightarrow> Inl Null_function_pointer
         | Some f \<Rightarrow>
             (let soContext'' = f soContext';
                  pd'' = (case pPrimData soContext'' of Some d \<Rightarrow> d | None \<Rightarrow> pd')
              in so_prims k pa st streamIndex soVertsPerPrim stride rest (pd'', soContext'')))"

text \<open>
  The first part of \<^verbatim>\<open>StreamOut\<close>, up to the end of the primitive loop. The context
  starts zeroed, with its buffer pointers set to the API state's four buffers.
\<close>

definition so_prim_loop ::
  "knobs \<Rightarrow> 'v PA_SO_VIEW \<Rightarrow> 'v SO_API_STATE \<Rightarrow> u32 \<Rightarrow> 'v so_world
   \<Rightarrow> fe_abort + (nat \<rightharpoonup> 'v) \<times> 'v SWR_STREAMOUT_CONTEXT" where
  "so_prim_loop k pa st streamIndex w =
     (let soVertsPerPrim = retval (NumVertsPerPrim (so_binTopology pa) False);
          primDataDwordVertexStride = (of_nat (unat (SWR_VTX_NUM_SLOTS k) * 4 * 4 div 4) :: u32);
          soContext = \<lparr>pPrimData = None, pBuffer = soBuffer w,
                       numPrimsWritten = 0, numPrimStorageNeeded = 0\<rparr>;
          numPrims = so_NumPrims pa
      in so_prims k pa st streamIndex soVertsPerPrim primDataDwordVertexStride
           [0 ..< unat numPrims] (primData w, soContext))"

text \<open>
  One round of the write-back loop, for buffer \<open>i\<close>. The byte offset is
  \<^verbatim>\<open>streamOffset * sizeof(uint32_t)\<close> stored into a 32-bit slot, that is, the product
  modulo \<open>2^32\<close>.
\<close>

definition so_write_back ::
  "'v SWR_STREAMOUT_CONTEXT \<Rightarrow> nat \<Rightarrow> 'v so_world \<Rightarrow> 'v so_world" where
  "so_write_back soContext i w =
     (let b = pBuffer soContext i;
          w1 = (case pWriteOffset b of
                  Some a \<Rightarrow> w\<lparr>mem := (mem w)(a := streamOffset b * 4)\<rparr>
                | None \<Rightarrow> w)
      in if soWriteEnable b
         then w1\<lparr>dynState := (dynState w1)
                  \<lparr>SoWriteOffset := (SoWriteOffset (dynState w1))(i := streamOffset b * 4),
                   SoWriteOffsetDirty := (SoWriteOffsetDirty (dynState w1))(i := True)\<rparr>\<rparr>
         else w1)"

definition so_update_stats :: "'v SWR_STREAMOUT_CONTEXT \<Rightarrow> u32 \<Rightarrow> DYN_STATE \<Rightarrow> DYN_STATE" where
  "so_update_stats soContext streamIndex d =
     (let s = statsFE d;
          s1 = s\<lparr>SoPrimStorageNeeded := (SoPrimStorageNeeded s)
                  (unat streamIndex := UPDATE_STAT_FE (SoPrimStorageNeeded s (unat streamIndex))
                                         (numPrimStorageNeeded soContext))\<rparr>;
          s2 = s1\<lparr>SoNumPrimsWritten := (SoNumPrimsWritten s1)
                  (unat streamIndex := UPDATE_STAT_FE (SoNumPrimsWritten s1 (unat streamIndex))
                                         (numPrimsWritten soContext))\<rparr>
      in d\<lparr>statsFE := s2\<rparr>)"

text \<open>\<^verbatim>\<open>StreamOut(pDC, pa, workerId, pPrimData, streamIndex)\<close>.\<close>

definition StreamOut ::
  "knobs \<Rightarrow> 'v PA_SO_VIEW \<Rightarrow> 'v SO_API_STATE \<Rightarrow> u32 \<Rightarrow> 'v so_world \<Rightarrow> fe_abort + 'v so_world" where
  "StreamOut k pa st streamIndex w =
     (case so_prim_loop k pa st streamIndex w of
        Inl e \<Rightarrow> Inl e
      | Inr (pd, soContext) \<Rightarrow>
          (let w1 = w\<lparr>primData := pd, soBuffer := pBuffer soContext,
                      so_invalid := so_invalid w
                                    \<or> signalled (NumVertsPerPrim (so_binTopology pa) False)\<rparr>;
               w2 = fold (so_write_back soContext) [0 ..< 4] w1
           in Inr (w2\<lparr>dynState := so_update_stats soContext streamIndex (dynState w2)\<rparr>)))"


text \<open>A small stream-out run used in the worked examples.\<close>

definition so_sample_pa :: "nat PA_SO_VIEW" where
  "so_sample_pa = \<lparr>so_binTopology = TOP_TRIANGLE_LIST, so_NumPrims = 2,
                    AssembleSingle = (\<lambda>slot primIndex v. unat slot + v)\<rparr>"

definition so_sample_func :: "nat PFN_SO_FUNC" where
  "so_sample_func c =
     c\<lparr>pBuffer := (pBuffer c)(0 := (pBuffer c 0)\<lparr>streamOffset := streamOffset (pBuffer c 0) + 9\<rparr>),
       numPrimsWritten := numPrimsWritten c + 1,
       numPrimStorageNeeded := numPrimStorageNeeded c + 1\<rparr>"

definition so_sample_state :: "nat SO_API_STATE" where
  "so_sample_state = \<lparr>streamMasks = (\<lambda>i. 1), pfnSoFunc = (\<lambda>i. Some so_sample_func)\<rparr>"

definition so_sample_world :: "nat so_world" where
  "so_sample_world =
     \<lparr>mem = (\<lambda>a. 0),
      dynState = \<lparr>SoWriteOffset = (\<lambda>i. 0), SoWriteOffsetDirty = (\<lambda>i. False),
                  statsFE = \<lparr>IaVertices = 0, IaPrimitives = 0, VsInvocations = 0,
                    HsInvocations = 0, DsInvocations = 0, GsInvocations = 0, GsPrimitives = 0,
                    SoPrimStorageNeeded = (\<lambda>i. 0), SoNumPrimsWritten = (\<lambda>i. 0)\<rparr>\<rparr>,
      soBuffer = (\<lambda>i. \<lparr>pWriteOffset = (if i = 0 then Some 100 else None),
                           soWriteEnable = (i = 0), streamOffset = 0\<rparr>),
      primData = Map.empty, so_invalid = False\<rparr>"

text \<open>
  The same run with a second descriptor on the same write-offset slot: buffer 3 points at
  the slot of buffer 0 and its cursor stands at 5 dwords.
\<close>

definition so_shared_slot_world :: "nat so_world" where
  "so_shared_slot_world =
     so_sample_world\<lparr>soBuffer := (soBuffer so_sample_world)
        (3 := \<lparr>pWriteOffset = Some 100, soWriteEnable = False, streamOffset = 5\<rparr>)\<rparr>"

text \<open>
  The reading of a completed run that the example below uses: the write-offset pointer of
  buffer \<open>i\<close>, its final cursor in bytes, and the content of the slot at address \<open>a\<close>.
\<close>

definition so_cursor_and_slot :: "nat \<Rightarrow> addr \<Rightarrow> 'v so_world \<Rightarrow> addr option \<times> u32 \<times> u32" where
  "so_cursor_and_slot i a w = (pWriteOffset (soBuffer w i), streamOffset (soBuffer w i) * 4, mem w a)"


section \<open>Geometry-shader stage\<close>

type_synonym memory = "addr \<Rightarrow> u8"

text \<open>
  Modelled from the spec: \<^verbatim>\<open>AlignUp\<close> is declared in the utility header, outside this
  translation unit. The spec says strides are rounded up so that each batch starts at an
  aligned offset: the value is rounded up to the next multiple of the alignment.
\<close>

definition AlignUp :: "u32 \<Rightarrow> u32 \<Rightarrow> u32" where
  "AlignUp v alignment = ((v + alignment - 1) div alignment) * alignment"

text \<open>
  \<^verbatim>\<open>ProcessStreamIdBuffer(stream, pStreamIdBase, numEmittedVerts, pCutBuffer)\<close>: two
  bits of stream id per vertex become one cut bit per vertex, set where the vertex belongs
  to another stream. One output byte is made of two input bytes.
\<close>

definition stream_id_nibble :: "u32 \<Rightarrow> u8 \<Rightarrow> nat \<Rightarrow> u8" where
  "stream_id_nibble stream curInputByte shift =
     fold (\<lambda>i outByte.
             if ucast (drop_bit (2 * i) curInputByte AND 3) \<noteq> stream
             then outByte OR push_bit (i + shift) 1 else outByte)
          [0 ..< 4] 0"

definition ProcessStreamIdBuffer :: "u32 \<Rightarrow> addr \<Rightarrow> u32 \<Rightarrow> addr \<Rightarrow> memory \<Rightarrow> memory" where
  "ProcessStreamIdBuffer stream pStreamIdBase numEmittedVerts pCutBuffer m =
     (let numInputBytes = (numEmittedVerts * 2 + 7) div 8;
          numOutputBytes = max (numInputBytes div 2) 1
      in fold (\<lambda>b m'.
                 m'(pCutBuffer + b :=
                      stream_id_nibble stream (m' (pStreamIdBase + unat (2 * (of_nat b :: u32)))) 0
                      OR stream_id_nibble stream
                           (m' (pStreamIdBase + unat (2 * (of_nat b :: u32) + 1))) 4))
              [0 ..< unat numOutputBytes] m)"

record SWR_GS_STATE =
  gsEnable :: bool
  numInputAttribs :: u32
  outputTopology :: PRIMITIVE_TOPOLOGY
  maxNumVerts :: u32
  instanceCount :: u32
  emitsPrimitiveID :: bool
  emitsViewportArrayIndex :: bool
  isSingleStream :: bool
  singleStreamID :: u32

text \<open>What the stage reads of the API state besides the geometry-shader state.\<close>

record GS_API_STATE =
  gsState :: SWR_GS_STATE
  streamEnable :: "nat \<Rightarrow> bool"
  streamToRasterizer :: u32
  feNumAttributes :: u32
  topologyProvokingVertex :: u32

record GsBufferInfo =
  vertexPrimitiveStride :: u32
  vertexInstanceStride :: u32
  cutPrimitiveStride :: u32
  cutInstanceStride :: u32
  streamCutPrimitiveStride :: u32
  streamCutInstanceStride :: u32

text \<open>The constructor of \<^verbatim>\<open>GsBufferInfo<SIMDVERTEX, SIMD_WIDTH>\<close>.\<close>

definition GsBufferInfo_of :: "u32 \<Rightarrow> u32 \<Rightarrow> SWR_GS_STATE \<Rightarrow> GsBufferInfo" where
  "GsBufferInfo_of sizeof_SIMDVERTEX SIMD_WIDTH gs =
     (let vertexCount = maxNumVerts gs;
          vertexStride = sizeof_SIMDVERTEX;
          numSimdBatches = (vertexCount + SIMD_WIDTH - 1) div SIMD_WIDTH;
          vps = vertexStride * numSimdBatches;
          vis = vps * SIMD_WIDTH
      in if isSingleStream gs
         then \<lparr>vertexPrimitiveStride = vps, vertexInstanceStride = vis,
               cutPrimitiveStride = (vertexCount + 7) div 8,
               cutInstanceStride = ((vertexCount + 7) div 8) * SIMD_WIDTH,
               streamCutPrimitiveStride = 0, streamCutInstanceStride = 0\<rparr>
         else \<lparr>vertexPrimitiveStride = vps, vertexInstanceStride = vis,
               cutPrimitiveStride = AlignUp (vertexCount * 2 div 8) 4,
               cutInstanceStride = AlignUp (vertexCount * 2 div 8) 4 * SIMD_WIDTH,
               streamCutPrimitiveStride = (vertexCount + 7) div 8,
               streamCutInstanceStride = ((vertexCount + 7) div 8) * SIMD_WIDTH\<rparr>)"

text \<open>
  The thread-local geometry-shader context. \<open>gs_vert i slot\<close> is
  \<^verbatim>\<open>vert[i].attrib[slot]\<close>; the lane vectors \<^verbatim>\<open>PrimitiveID\<close> and \<^verbatim>\<open>vertexCount\<close> are
  read lane by lane by the stage and are functions of the lane.
\<close>

record 'sv SWR_GS_CONTEXT =
  gs_vert :: "nat \<Rightarrow> u32 \<Rightarrow> 'sv option"
  gs_PrimitiveID :: "nat \<Rightarrow> u32"
  gs_InstanceID :: u32
  gs_mask :: simdmask
  pStream :: addr
  pCutOrStreamIdBuffer :: addr
  vertexCount :: "nat \<Rightarrow> u32"

text \<open>What the stage reads of the primitive assembler it is given.\<close>

record 'sv PA_IN_VIEW =
  binTopology :: PRIMITIVE_TOPOLOGY
  in_NumPrims :: u32
  in_Assemble :: "u32 \<Rightarrow> nat \<Rightarrow> 'sv"

text \<open>The arguments of the \<^verbatim>\<open>PA_STATE_CUT\<close> constructor that vary.\<close>

record gsPa_args =
  pa_pBase :: addr
  pa_numVerts :: u32
  pa_pCutBuffer :: addr
  pa_numAttribs :: u32
  pa_topology :: PRIMITIVE_TOPOLOGY
  pa_processCutVerts :: bool

text \<open>
  The collaborators the stage calls through: the JIT-compiled geometry shader, which
  takes the context and writes its output to memory, and the cut-aware primitive
  assembler, an abstract state machine over the same memory.
\<close>

record ('sv, 'pa) gs_env =
  pfnGsFunc :: "'sv SWR_GS_CONTEXT \<Rightarrow> memory \<Rightarrow> 'sv SWR_GS_CONTEXT \<times> memory"
  PA_STATE_CUT :: "memory \<Rightarrow> gsPa_args \<Rightarrow> 'pa"
  GetNextStreamOutput :: "'pa \<Rightarrow> bool \<times> 'pa"
  cut_Assemble :: "'pa \<Rightarrow> u32 \<Rightarrow> bool \<times> 'pa"
  cut_NumPrims :: "'pa \<Rightarrow> u32"
  cut_NextPrim :: "'pa \<Rightarrow> bool \<times> 'pa"

datatype clip_func =
    ClipTriangles | ClipLines | ClipPoints
  | ClipTriangles_simd16 | ClipLines_simd16 | ClipPoints_simd16

datatype primid_arg = PrimIdFromGS u32 | PrimIdFromInput u32
datatype viewport_arg = ViewportFromGS | ViewportZero

text \<open>
  The calls the stage makes, in order. The calls made on the assembler of an output
  stream carry the input primitive, the instance and the stream it was built for.
\<close>

datatype gs_event =
    GsFuncCall u32 simdmask
  | PaConstruct nat nat nat gsPa_args
  | StreamOutCall nat nat nat u32
  | ClipCall nat nat nat clip_func u32 primid_arg viewport_arg

fun event_key :: "gs_event \<Rightarrow> (nat \<times> nat \<times> nat) option" where
  "event_key (GsFuncCall i m) = None"
| "event_key (PaConstruct p i s a) = Some (p, i, s)"
| "event_key (StreamOutCall p i s n) = Some (p, i, s)"
| "event_key (ClipCall p i s f m pid vp) = Some (p, i, s)"

text \<open>A \<^verbatim>\<open>for (uint32_t i = 0; i < n; ++i)\<close> loop whose body can end the run.\<close>

fun for_loop ::
  "nat list \<Rightarrow> (nat \<Rightarrow> 's \<Rightarrow> fe_abort + 'e list \<times> 's) \<Rightarrow> 's \<Rightarrow> fe_abort + 'e list \<times> 's" where
  "for_loop [] body s = Inr ([], s)"
| "for_loop (i # is) body s =
     (case body i s of
        Inl e \<Rightarrow> Inl e
      | Inr (evs, s1) \<Rightarrow>
          (case for_loop is body s1 of
             Inl e \<Rightarrow> Inl e
           | Inr (evs', s2) \<Rightarrow> Inr (evs @ evs', s2)))"

text \<open>The selection of the clip function from the output topology.\<close>

definition gs_select_clip :: "knobs \<Rightarrow> bool \<Rightarrow> PRIMITIVE_TOPOLOGY \<Rightarrow> clip_func option checked" where
  "gs_select_clip k HasRast topo =
     (if HasRast
      then (if USE_SIMD16_FRONTEND k
            then (case topo of
                    TOP_TRIANGLE_STRIP \<Rightarrow> Normal (Some ClipTriangles_simd16)
                  | TOP_LINE_STRIP \<Rightarrow> Normal (Some ClipLines_simd16)
                  | TOP_POINT_LIST \<Rightarrow> Normal (Some ClipPoints_simd16)
                  | _ \<Rightarrow> Invalid None)
            else (case topo of
                    TOP_TRIANGLE_STRIP \<Rightarrow> Normal (Some ClipTriangles)
                  | TOP_LINE_STRIP \<Rightarrow> Normal (Some ClipLines)
                  | TOP_POINT_LIST \<Rightarrow> Normal (Some ClipPoints)
                  | _ \<Rightarrow> Invalid None))
      else Normal None)"

text \<open>
  What is done with one assembled group of primitives: count it, stream it out, and hand
  it to the clipper if this stream goes to the rasterizer.
\<close>

definition gs_assembled ::
  "knobs \<Rightarrow> bool \<Rightarrow> bool \<Rightarrow> ('sv, 'pa) gs_env \<Rightarrow> GS_API_STATE \<Rightarrow> clip_func option
   \<Rightarrow> (nat \<Rightarrow> u32) \<Rightarrow> nat \<Rightarrow> nat \<Rightarrow> nat \<Rightarrow> 'pa \<Rightarrow> u32
   \<Rightarrow> fe_abort + gs_event list \<times> u32 \<times> 'pa" where
  "gs_assembled k HasStreamOut HasRast env st pfnClipFunc pPrimitiveId inputPrim instance stream
      gsPa totalPrimsGenerated =
     (let totalPrims' = totalPrimsGenerated + cut_NumPrims env gsPa;
          so = (if HasStreamOut
                then [StreamOutCall inputPrim instance stream (cut_NumPrims env gsPa)] else [])
      in if HasRast \<and> streamToRasterizer st = of_nat stream
         then (let (vPrimId, pa1) =
                     (if emitsPrimitiveID (gsState st)
                      then (PrimIdFromGS (topologyProvokingVertex st),
                            snd (cut_Assemble env gsPa (VERTEX_PRIMID_SLOT k)))
                      else (PrimIdFromInput (pPrimitiveId inputPrim), gsPa));
                   (vViewPortIdx, pa2) =
                     (if emitsViewportArrayIndex (gsState st)
                      then (ViewportFromGS,
                            snd (cut_Assemble env pa1 (VERTEX_VIEWPORT_ARRAY_INDEX_SLOT k)))
                      else (ViewportZero, pa1))
               in case pfnClipFunc of
                    None \<Rightarrow> Inl Null_function_pointer
                  | Some f \<Rightarrow>
                      Inr (so @ [ClipCall inputPrim instance stream f
                                   (retval (GenMask (cut_NumPrims env pa2))) vPrimId vViewPortIdx],
                           totalPrims', pa2))
         else Inr (so, totalPrims', gsPa))"

text \<open>The \<^verbatim>\<open>do { \<dots> } while (gsPa.NextPrim())\<close> loop.\<close>

fun gs_drain ::
  "nat \<Rightarrow> knobs \<Rightarrow> bool \<Rightarrow> bool \<Rightarrow> ('sv, 'pa) gs_env \<Rightarrow> GS_API_STATE \<Rightarrow> clip_func option
   \<Rightarrow> (nat \<Rightarrow> u32) \<Rightarrow> nat \<Rightarrow> nat \<Rightarrow> nat \<Rightarrow> 'pa \<Rightarrow> u32
   \<Rightarrow> fe_abort + gs_event list \<times> u32 \<times> 'pa" where
  "gs_drain 0 k HasStreamOut HasRast env st pfnClipFunc pPrimitiveId inputPrim instance stream
      gsPa totalPrims = Inl Fuel_exhausted"
| "gs_drain (Suc fuel) k HasStreamOut HasRast env st pfnClipFunc pPrimitiveId inputPrim instance
      stream gsPa totalPrims =
     (let (assemble, pa1) = cut_Assemble env gsPa (VERTEX_POSITION_SLOT k)
      in case (if assemble
               then gs_assembled k HasStreamOut HasRast env st pfnClipFunc pPrimitiveId
                      inputPrim instance stream pa1 totalPrims
               else Inr ([], totalPrims, pa1)) of
           Inl e \<Rightarrow> Inl e
         | Inr (evs, totalPrims1, pa2) \<Rightarrow>
             (let (more, pa3) = cut_NextPrim env pa2
              in if more
                 then (case gs_drain fuel k HasStreamOut HasRast env st pfnClipFunc pPrimitiveId
                              inputPrim instance stream pa3 totalPrims1 of
                         Inl e \<Rightarrow> Inl e
                       | Inr (evs', totalPrims2, pa4) \<Rightarrow> Inr (evs @ evs', totalPrims2, pa4))
                 else Inr (evs, totalPrims1, pa3)))"

text \<open>The \<^verbatim>\<open>while (gsPa.GetNextStreamOutput())\<close> loop around it.\<close>

fun gs_stream_output ::
  "nat \<Rightarrow> knobs \<Rightarrow> bool \<Rightarrow> bool \<Rightarrow> ('sv, 'pa) gs_env \<Rightarrow> GS_API_STATE \<Rightarrow> clip_func option
   \<Rightarrow> (nat \<Rightarrow> u32) \<Rightarrow> nat \<Rightarrow> nat \<Rightarrow> nat \<Rightarrow> 'pa \<Rightarrow> u32
   \<Rightarrow> fe_abort + gs_event list \<times> u32 \<times> 'pa" where
  "gs_stream_output 0 k HasStreamOut HasRast env st pfnClipFunc pPrimitiveId inputPrim instance
      stream gsPa totalPrims = Inl Fuel_exhausted"
| "gs_stream_output (Suc fuel) k HasStreamOut HasRast env st pfnClipFunc pPrimitiveId inputPrim
      instance stream gsPa totalPrims =
     (let (more, pa1) = GetNextStreamOutput env gsPa
      in if more
         then (case gs_drain fuel k HasStreamOut HasRast env st pfnClipFunc pPrimitiveId
                      inputPrim instance stream pa1 totalPrims of
                 Inl e \<Rightarrow> Inl e
               | Inr (evs, totalPrims1, pa2) \<Rightarrow>
                   (case gs_stream_output fuel k HasStreamOut HasRast env st pfnClipFunc
                           pPrimitiveId inputPrim instance stream pa2 totalPrims1 of
                      Inl e \<Rightarrow> Inl e
                    | Inr (evs', totalPrims2, pa3) \<Rightarrow> Inr (evs @ evs', totalPrims2, pa3)))
         else Inr ([], totalPrims, pa1))"

text \<open>
  The body of the loop over the output streams, for one input primitive and one instance.
  The state carried from stream to stream is the memory (the per-stream cut buffer is
  rewritten for each multi-stream output) and the count of generated primitives.
\<close>

definition gs_stream ::
  "nat \<Rightarrow> knobs \<Rightarrow> bool \<Rightarrow> bool \<Rightarrow> ('sv, 'pa) gs_env \<Rightarrow> GS_API_STATE \<Rightarrow> clip_func option
   \<Rightarrow> (nat \<Rightarrow> u32) \<Rightarrow> addr \<Rightarrow> nat \<Rightarrow> nat \<Rightarrow> u32 \<Rightarrow> addr \<Rightarrow> addr
   \<Rightarrow> nat \<Rightarrow> memory \<times> u32 \<Rightarrow> fe_abort + gs_event list \<times> memory \<times> u32" where
  "gs_stream fuel k HasStreamOut HasRast env st pfnClipFunc pPrimitiveId pStreamCutBuffer
      inputPrim instance numEmittedVerts pBase pCutBase stream s =
     (let (m, totalPrims) = s;
          pState = gsState st;
          numAttribs = feNumAttributes st;
          go = (\<lambda>m' pCutBuffer processCutVerts.
                  (let args = \<lparr>pa_pBase = pBase, pa_numVerts = numEmittedVerts,
                               pa_pCutBuffer = pCutBuffer, pa_numAttribs = numAttribs,
                               pa_topology = outputTopology pState,
                               pa_processCutVerts = processCutVerts\<rparr>;
                       gsPa = PA_STATE_CUT env m' args
                   in case gs_stream_output fuel k HasStreamOut HasRast env st pfnClipFunc
                             pPrimitiveId inputPrim instance stream gsPa totalPrims of
                        Inl e \<Rightarrow> Inl e
                      | Inr (evs, totalPrims', pa') \<Rightarrow>
                          Inr (PaConstruct inputPrim instance stream args # evs, m', totalPrims')))
      in if isSingleStream pState
         then (if singleStreamID pState \<noteq> of_nat stream then Inr ([], m, totalPrims)
               else go m pCutBase True)
         else (if HasStreamOut \<and> \<not> streamEnable st stream then Inr ([], m, totalPrims)
               else go (ProcessStreamIdBuffer (of_nat stream) pCutBase numEmittedVerts
                          pStreamCutBuffer m)
                       pStreamCutBuffer False))"

text \<open>The body of the loop over the instances, for one input primitive.\<close>

definition gs_instance ::
  "nat \<Rightarrow> knobs \<Rightarrow> bool \<Rightarrow> bool \<Rightarrow> ('sv, 'pa) gs_env \<Rightarrow> GS_API_STATE \<Rightarrow> clip_func option
   \<Rightarrow> (nat \<Rightarrow> u32) \<Rightarrow> addr \<Rightarrow> GsBufferInfo \<Rightarrow> (nat \<Rightarrow> u32) \<Rightarrow> nat \<Rightarrow> addr \<Rightarrow> addr
   \<Rightarrow> nat \<Rightarrow> memory \<times> u32 \<Rightarrow> fe_abort + gs_event list \<times> memory \<times> u32" where
  "gs_instance fuel k HasStreamOut HasRast env st pfnClipFunc pPrimitiveId pStreamCutBuffer
      bufferInfo pVertexCount inputPrim pInstanceBase pCutBufferBase instance s =
     (let numEmittedVerts = pVertexCount inputPrim
      in if numEmittedVerts = 0 then Inr ([], s)
         else (let pBase = pInstanceBase
                             + unat (of_nat instance * vertexInstanceStride bufferInfo);
                   pCutBase = pCutBufferBase
                                + unat (of_nat instance * cutInstanceStride bufferInfo)
               in for_loop [0 ..< unat (MAX_SO_STREAMS k)]
                    (gs_stream fuel k HasStreamOut HasRast env st pfnClipFunc pPrimitiveId
                       pStreamCutBuffer inputPrim instance numEmittedVerts pBase pCutBase) s))"

text \<open>The body of the loop over the input primitives.\<close>

definition gs_input_prim ::
  "nat \<Rightarrow> knobs \<Rightarrow> bool \<Rightarrow> bool \<Rightarrow> ('sv, 'pa) gs_env \<Rightarrow> GS_API_STATE \<Rightarrow> clip_func option
   \<Rightarrow> (nat \<Rightarrow> u32) \<Rightarrow> addr \<Rightarrow> addr \<Rightarrow> addr \<Rightarrow> GsBufferInfo \<Rightarrow> (nat \<Rightarrow> u32)
   \<Rightarrow> nat \<Rightarrow> memory \<times> u32 \<Rightarrow> fe_abort + gs_event list \<times> memory \<times> u32" where
  "gs_input_prim fuel k HasStreamOut HasRast env st pfnClipFunc pPrimitiveId pGsOut pCutBuffer
      pStreamCutBuffer bufferInfo pVertexCount inputPrim s =
     (let pInstanceBase = pGsOut + unat (of_nat inputPrim * vertexPrimitiveStride bufferInfo);
          pCutBufferBase = pCutBuffer + unat (of_nat inputPrim * cutPrimitiveStride bufferInfo)
      in for_loop [0 ..< unat (instanceCount (gsState st))]
           (gs_instance fuel k HasStreamOut HasRast env st pfnClipFunc pPrimitiveId
              pStreamCutBuffer bufferInfo pVertexCount inputPrim pInstanceBase pCutBufferBase) s)"

text \<open>
  The first loop over the instances: one geometry-shader call per instance, each on the
  same thread-local context, with the output pointers advanced after each call.
\<close>

definition gs_execute ::
  "knobs \<Rightarrow> ('sv, 'pa) gs_env \<Rightarrow> GsBufferInfo \<Rightarrow> u32 \<Rightarrow> nat
   \<Rightarrow> 'sv SWR_GS_CONTEXT \<times> memory \<Rightarrow> fe_abort + gs_event list \<times> 'sv SWR_GS_CONTEXT \<times> memory" where
  "gs_execute k env bufferInfo numInputPrims instance s =
     (let (c, m) = s;
          c1 = c\<lparr>gs_InstanceID := of_nat instance, gs_mask := GenerateMask k numInputPrims\<rparr>;
          (c2, m2) = pfnGsFunc env c1 m;
          c3 = c2\<lparr>pStream := pStream c2 + unat (vertexInstanceStride bufferInfo),
                  pCutOrStreamIdBuffer := pCutOrStreamIdBuffer c2
                                          + unat (cutInstanceStride bufferInfo)\<rparr>
      in Inr ([GsFuncCall (of_nat instance) (GenerateMask k numInputPrims)], c3, m2))"

text \<open>The assembly of the input primitive's attributes into the context.\<close>

definition gs_store_attrib :: "'sv PA_IN_VIEW \<Rightarrow> u32 \<Rightarrow> u32 \<Rightarrow> 'sv SWR_GS_CONTEXT \<Rightarrow> 'sv SWR_GS_CONTEXT" where
  "gs_store_attrib pa numVertsPerPrim attribSlot c =
     fold (\<lambda>i c'. c'\<lparr>gs_vert := (gs_vert c')(i := (gs_vert c' i)
                                   (attribSlot \<mapsto> in_Assemble pa attribSlot i))\<rparr>)
          [0 ..< unat numVertsPerPrim] c"

definition gs_assemble_inputs :: "knobs \<Rightarrow> 'sv PA_IN_VIEW \<Rightarrow> SWR_GS_STATE \<Rightarrow> u32 \<Rightarrow> 'sv SWR_GS_CONTEXT \<Rightarrow> 'sv SWR_GS_CONTEXT" where
  "gs_assemble_inputs k pa pState numVertsPerPrim c =
     gs_store_attrib pa numVertsPerPrim (VERTEX_POSITION_SLOT k)
       (fold (\<lambda>slot c'. gs_store_attrib pa numVertsPerPrim
                           (VERTEX_ATTRIB_START_SLOT k + of_nat slot) c')
             [0 ..< unat (numInputAttribs pState)] c)"

text \<open>The buffer strides and the number of valid input primitives, per build.\<close>

definition gs_bufferInfo :: "knobs \<Rightarrow> SWR_GS_STATE \<Rightarrow> GsBufferInfo" where
  "gs_bufferInfo k pState =
     (if USE_SIMD16_FRONTEND k
      then GsBufferInfo_of (sizeof_simd16vertex k) (KNOB_SIMD16_WIDTH k) pState
      else GsBufferInfo_of (sizeof_simdvertex k) (KNOB_SIMD_WIDTH k) pState)"

definition gs_numInputPrims :: "knobs \<Rightarrow> 'sv PA_IN_VIEW \<Rightarrow> u32 \<Rightarrow> u32" where
  "gs_numInputPrims k pa numPrims_simd8 =
     (if USE_SIMD16_FRONTEND k then numPrims_simd8 else in_NumPrims pa)"

text \<open>
  The outcome of a run that reaches the end of the stage: the calls made, the context and
  memory left behind, the pipeline statistics, the clip function pointer as selected, and
  which assertions were signalled on the way.
\<close>

record 'sv gs_result =
  gs_events :: "gs_event list"
  gs_tls :: "'sv SWR_GS_CONTEXT"
  gs_memory :: memory
  gs_stats :: SWR_STATS_FE
  gs_pfnClipFunc :: "clip_func option"
  gs_invalid_output_topology :: bool
  gs_asserted :: bool

text \<open>
  \<^verbatim>\<open>GeometryShaderStage<HasStreamOutT, HasRastT>\<close>. \<open>numPrims_simd8\<close> is the extra
  argument of the SIMD16 build and is not read otherwise.
\<close>

definition GeometryShaderStage ::
  "nat \<Rightarrow> knobs \<Rightarrow> bool \<Rightarrow> bool \<Rightarrow> ('sv, 'pa) gs_env \<Rightarrow> GS_API_STATE \<Rightarrow> 'sv PA_IN_VIEW
   \<Rightarrow> addr \<Rightarrow> addr \<Rightarrow> addr \<Rightarrow> u32 \<Rightarrow> (nat \<Rightarrow> u32)
   \<Rightarrow> 'sv SWR_GS_CONTEXT \<Rightarrow> memory \<Rightarrow> SWR_STATS_FE \<Rightarrow> fe_abort + 'sv gs_result" where
  "GeometryShaderStage fuel k HasStreamOut HasRast env st pa pGsOut pCutBuffer pStreamCutBuffer
      numPrims_simd8 primID tlsGsContext m stats =
     (let pState = gsState st;
          c0 = tlsGsContext\<lparr>pStream := pGsOut, pCutOrStreamIdBuffer := pCutBuffer,
                            gs_PrimitiveID := primID\<rparr>;
          vpp = NumVertsPerPrim (binTopology pa) True;
          numVertsPerPrim = retval vpp;
          c1 = gs_assemble_inputs k pa pState numVertsPerPrim c0;
          bufferInfo = gs_bufferInfo k pState;
          numInputPrims = gs_numInputPrims k pa numPrims_simd8
      in case for_loop [0 ..< unat (instanceCount pState)]
                (gs_execute k env bufferInfo numInputPrims) (c1, m) of
           Inl e \<Rightarrow> Inl e
         | Inr (evs1, c2, m2) \<Rightarrow>
             (let sel = gs_select_clip k HasRast (outputTopology pState);
                  pfnClipFunc = retval sel;
                  pVertexCount = vertexCount c2;
                  pPrimitiveId = primID
              in case for_loop [0 ..< unat numInputPrims]
                        (gs_input_prim fuel k HasStreamOut HasRast env st pfnClipFunc pPrimitiveId
                           pGsOut pCutBuffer pStreamCutBuffer bufferInfo pVertexCount)
                        (m2, 0) of
                   Inl e \<Rightarrow> Inl e
                 | Inr (evs2, m3, totalPrimsGenerated) \<Rightarrow>
                     Inr \<lparr>gs_events = evs1 @ evs2, gs_tls = c2, gs_memory = m3,
                          gs_stats = stats
                            \<lparr>GsInvocations := UPDATE_STAT_FE (GsInvocations stats)
                                                (numInputPrims * instanceCount pState),
                             GsPrimitives := UPDATE_STAT_FE (GsPrimitives stats)
                                               totalPrimsGenerated\<rparr>,
                          gs_pfnClipFunc = pfnClipFunc,
                          gs_invalid_output_topology = signalled sel,
                          gs_asserted = (signalled vpp \<or> pGsOut = 0 \<or> pCutBuffer = 0)\<rparr>))"

text \<open>
  The reading of the stage that the results below compare it with: which output streams
  are processed, which clip function an output topology stands for, and the variant of a
  clip function that a build calls.
\<close>

definition stream_processed :: "bool \<Rightarrow> GS_API_STATE \<Rightarrow> nat \<Rightarrow> bool" where
  "stream_processed HasStreamOut st s =
     (if isSingleStream (gsState st) then singleStreamID (gsState st) = of_nat s
      else \<not> (HasStreamOut \<and> \<not> streamEnable st s))"

fun clip_for_topology :: "PRIMITIVE_TOPOLOGY \<Rightarrow> clip_func option" where
  "clip_for_topology TOP_TRIANGLE_STRIP = Some ClipTriangles"
| "clip_for_topology TOP_LINE_STRIP = Some ClipLines"
| "clip_for_topology TOP_POINT_LIST = Some ClipPoints"
| "clip_for_topology _ = None"

fun simd16_variant :: "clip_func \<Rightarrow> clip_func" where
  "simd16_variant ClipTriangles = ClipTriangles_simd16"
| "simd16_variant ClipLines = ClipLines_simd16"
| "simd16_variant ClipPoints = ClipPoints_simd16"
| "simd16_variant f = f"

definition build_variant :: "knobs \<Rightarrow> clip_func \<Rightarrow> clip_func" where
  "build_variant k f = (if USE_SIMD16_FRONTEND k then simd16_variant f else f)"

text \<open>
  An event is in order for the assembler of \<open>(inputPrim, instance, stream)\<close> when it
  carries that key and, if it is a clip call, calls the selected function.
\<close>

definition event_ok :: "nat \<times> nat \<times> nat \<Rightarrow> clip_func option \<Rightarrow> gs_event \<Rightarrow> bool" where
  "event_ok key pfnClipFunc e =
     (event_key e = Some key
      \<and> (case e of ClipCall p i s f m pid vp \<Rightarrow> pfnClipFunc = Some f | _ \<Rightarrow> True))"

text \<open>
  Small runs of the stage used in the worked examples. The sample assembler yields one
  group of one primitive for every output stream it is built on. The first sample shader
  emits three vertices per lane on every call; the second emits none for instance 0 and
  three for every later instance.
\<close>

definition zero_stats :: SWR_STATS_FE where
  "zero_stats = \<lparr>IaVertices = 0, IaPrimitives = 0, VsInvocations = 0, HsInvocations = 0,
     DsInvocations = 0, GsInvocations = 0, GsPrimitives = 0,
     SoPrimStorageNeeded = (\<lambda>i. 0), SoNumPrimsWritten = (\<lambda>i. 0)\<rparr>"

definition zero_memory :: memory where
  "zero_memory = (\<lambda>a. 0)"

definition gs_sample_fuel :: nat where
  "gs_sample_fuel = 4"

definition gs_sample_env :: "(nat, nat) gs_env" where
  "gs_sample_env =
     \<lparr>pfnGsFunc = (\<lambda>c m. (c\<lparr>vertexCount := (\<lambda>lane. 3)\<rparr>, m)),
      PA_STATE_CUT = (\<lambda>m a. 1),
      GetNextStreamOutput = (\<lambda>n. (0 < n, n)),
      cut_Assemble = (\<lambda>n slot. (True, n)),
      cut_NumPrims = (\<lambda>n. 1),
      cut_NextPrim = (\<lambda>n. (False, n - 1))\<rparr>"

definition gs_sample_env_late :: "(nat, nat) gs_env" where
  "gs_sample_env_late =
     gs_sample_env\<lparr>pfnGsFunc :=
       (\<lambda>c m. (c\<lparr>vertexCount := (\<lambda>lane. if gs_InstanceID c = 0 then 0 else 3)\<rparr>, m))\<rparr>"

definition gs_sample_gsState :: SWR_GS_STATE where
  "gs_sample_gsState =
     \<lparr>gsEnable = True, numInputAttribs = 1, outputTopology = TOP_TRIANGLE_STRIP,
      maxNumVerts = 3, instanceCount = 1, emitsPrimitiveID = False,
      emitsViewportArrayIndex = False, isSingleStream = False, singleStreamID = 0\<rparr>"

definition gs_sample_state :: GS_API_STATE where
  "gs_sample_state =
     \<lparr>gsState = gs_sample_gsState, streamEnable = (\<lambda>s. s = 1), streamToRasterizer = 0,
      feNumAttributes = 1, topologyProvokingVertex = 0\<rparr>"

definition gs_sample_pa :: "nat PA_IN_VIEW" where
  "gs_sample_pa = \<lparr>binTopology = TOP_TRIANGLE_LIST, in_NumPrims = 1, in_Assemble = (\<lambda>slot i. 0)\<rparr>"

definition gs_sample_tls :: "nat SWR_GS_CONTEXT" where
  "gs_sample_tls =
     \<lparr>gs_vert = (\<lambda>i slot. None), gs_PrimitiveID = (\<lambda>lane. 0), gs_InstanceID = 0, gs_mask = [],
      pStream = 0, pCutOrStreamIdBuffer = 0, vertexCount = (\<lambda>lane. 0)\<rparr>"

text \<open>
  Multi-stream output with stream-out and rasterization on: only stream 1 is captured,
  stream 0 goes to the rasterizer.
\<close>

definition gs_run_multi_stream :: "fe_abort + nat gs_result" where
  "gs_run_multi_stream =
     GeometryShaderStage gs_sample_fuel simd8_knobs True True gs_sample_env gs_sample_state gs_sample_pa
       4096 8192 12288 0 (\<lambda>lane. 7) gs_sample_tls zero_memory zero_stats"

text \<open>Single-stream output to the rasterizer, no stream-out.\<close>

definition gs_sample_state_single :: GS_API_STATE where
  "gs_sample_state_single =
     gs_sample_state\<lparr>gsState := gs_sample_gsState\<lparr>isSingleStream := True\<rparr>\<rparr>"

definition gs_run_single_stream :: "fe_abort + nat gs_result" where
  "gs_run_single_stream =
     GeometryShaderStage gs_sample_fuel simd8_knobs False True gs_sample_env gs_sample_state_single
       gs_sample_pa 4096 8192 12288 0 (\<lambda>lane. 7) gs_sample_tls zero_memory zero_stats"

text \<open>The same with two instances and the shader that emits nothing for instance 0.\<close>

definition gs_sample_state_two_instances :: GS_API_STATE where
  "gs_sample_state_two_instances =
     gs_sample_state\<lparr>gsState := gs_sample_gsState\<lparr>isSingleStream := True, instanceCount := 2\<rparr>\<rparr>"

definition gs_run_two_instances :: "fe_abort + nat gs_result" where
  "gs_run_two_instances =
     GeometryShaderStage gs_sample_fuel simd8_knobs False True gs_sample_env_late
       gs_sample_state_two_instances gs_sample_pa 4096 8192 12288 0 (\<lambda>lane. 7)
       gs_sample_tls zero_memory zero_stats"

text \<open>One instance of that shader, which emits nothing, into a triangle-list output.\<close>

definition gs_sample_state_list_output :: GS_API_STATE where
  "gs_sample_state_list_output =
     gs_sample_state\<lparr>gsState := gs_sample_gsState\<lparr>isSingleStream := True,
                                                   outputTopology := TOP_TRIANGLE_LIST\<rparr>\<rparr>"

definition gs_run_list_output :: "fe_abort + nat gs_result" where
  "gs_run_list_output =
     GeometryShaderStage gs_sample_fuel simd8_knobs False True gs_sample_env_late
       gs_sample_state_list_output gs_sample_pa 4096 8192 12288 0 (\<lambda>lane. 7)
       gs_sample_tls zero_memory zero_stats"

section \<open>Tessellation stages\<close>






































section \<open>Draw orchestration\<close>

datatype SWR_FORMAT = R32_UINT | R16_UINT | R8_UINT | OTHER_FORMAT

record DRAW_WORK =
  dw_type :: SWR_FORMAT
  numVerts :: u32
  numInstances :: u32
  startVertex :: u32
  startInstance :: u32
  startPrimID :: u32
  startVertexID :: u32
  baseVertex :: u32
  pIB :: addr

text \<open>What \<^verbatim>\<open>ProcessDraw\<close> reads of the API state and of the draw state.\<close>

record DRAW_API_STATE =
  topology :: PRIMITIVE_TOPOLOGY
  draw_gsEnable :: bool
  indexBuffer_pIndices :: addr
  indexBuffer_size :: u32
  pfnProcessPrims :: "clip_func option"
  pfnProcessPrims_simd16 :: "clip_func option"

text \<open>The six template arguments.\<close>

record fe_flags =
  IsIndexedT :: bool
  IsCutIndexEnabledT :: bool
  HasTessellationT :: bool
  HasGeometryShaderT :: bool
  HasStreamOutT :: bool
  HasRastT :: bool

text \<open>
  The index source of a fetch: a pointer into the index buffer for an indexed draw, or
  the vector of generated vertex ids, given by the id of its first lane.
\<close>

datatype fetch_indices = IndexPointer addr | GeneratedIds u32

record SWR_FETCH_CONTEXT =
  fc_StartVertex :: u32
  fc_StartInstance :: u32
  fc_BaseVertex :: u32
  fc_CurInstance :: u32
  fc_pLastIndex :: addr
  fc_pIndices :: fetch_indices

text \<open>
  The collaborators of the draw loop: the primitive assembler chosen by the factory, an
  abstract state machine, and the fetch function, of which the loop uses the cut mask.
\<close>

record 'pa draw_env =
  PA_FACTORY_GetPA :: "PRIMITIVE_TOPOLOGY \<Rightarrow> u32 \<Rightarrow> u32 \<Rightarrow> 'pa"
  pa_HasWork :: "'pa \<Rightarrow> bool"
  pa_GetNextVsIndices :: "'pa \<Rightarrow> 'pa"
  pa_GetNextVsOutput :: "'pa \<Rightarrow> 'pa"
  pa_StoreCutIndices :: "'pa \<Rightarrow> u32 \<Rightarrow> u32 \<Rightarrow> 'pa"
  pa_Assemble :: "'pa \<Rightarrow> u32 \<Rightarrow> bool \<times> 'pa"
  pa_NumPrims :: "'pa \<Rightarrow> u32"
  pa_NextPrim :: "'pa \<Rightarrow> bool \<times> 'pa"
  pa_Reset :: "'pa \<Rightarrow> 'pa"
  pfnFetchFunc :: "SWR_FETCH_CONTEXT \<Rightarrow> u32"

text \<open>
  The calls the draw loop makes, in order. A fetch and a vertex-shader call carry the
  index of the first vertex of their batch and the instance; the vertex-shader call
  carries its lane mask as well. The stages called are modelled on their own above.
\<close>

datatype draw_event =
    AllocateGsBuffersCall
  | AllocateTessellationDataCall
  | AllocSoPrimData
  | FetchCall u32 u32 SWR_FETCH_CONTEXT
  | VertexFuncCall u32 u32 simdmask
  | TessellationStagesCall bool u32
  | GeometryShaderStageCall bool u32
  | StreamOutStageCall
  | ProcessPrimsCall clip_func u32

text \<open>
  The end of the vertex range: the raw count for an indexed draw, and the count pruned to
  the last complete primitive otherwise.
\<close>

definition draw_endVertex :: "fe_flags \<Rightarrow> DRAW_API_STATE \<Rightarrow> DRAW_WORK \<Rightarrow> u32" where
  "draw_endVertex fl st work =
     (if IsIndexedT fl then numVerts work
      else retval (GetNumVerts (topology st) (retval (GetNumPrims (topology st) (numVerts work)))))"

definition draw_indexSize :: "fe_flags \<Rightarrow> DRAW_WORK \<Rightarrow> u32 checked" where
  "draw_indexSize fl work =
     (if IsIndexedT fl
      then (case dw_type work of
              R32_UINT \<Rightarrow> Normal 4
            | R16_UINT \<Rightarrow> Normal 2
            | R8_UINT \<Rightarrow> Normal 1
            | OTHER_FORMAT \<Rightarrow> Invalid 0)
      else Normal 0)"

text \<open>The address just past the last requested index; 0 is the null pointer.\<close>

definition draw_pLastRequestedIndex :: "fe_flags \<Rightarrow> DRAW_WORK \<Rightarrow> addr" where
  "draw_pLastRequestedIndex fl work =
     (if IsIndexedT fl
      then (case dw_type work of
              R32_UINT \<Rightarrow> pIB work + 4 * unat (numVerts work)
            | R16_UINT \<Rightarrow> pIB work + 2 * unat (numVerts work)
            | R8_UINT \<Rightarrow> pIB work + unat (numVerts work)
            | OTHER_FORMAT \<Rightarrow> 0)
      else 0)"

text \<open>
  The growth of the thread's vertex store, in chunks of 8 (4 in a SIMD16 build), until it
  holds the vertices of one primitive. The loop counts in 32 bits.
\<close>

fun grow_vertex_store :: "nat \<Rightarrow> knobs \<Rightarrow> u32 \<Rightarrow> u32 \<Rightarrow> fe_abort + u32" where
  "grow_vertex_store 0 k numVertsPerPrim gVertexStoreSize =
     (if gVertexStoreSize < numVertsPerPrim then Inl Fuel_exhausted else Inr gVertexStoreSize)"
| "grow_vertex_store (Suc fuel) k numVertsPerPrim gVertexStoreSize =
     (if gVertexStoreSize < numVertsPerPrim
      then grow_vertex_store fuel k numVertsPerPrim
             (gVertexStoreSize + (if USE_SIMD16_FRONTEND k then 4 else 8))
      else Inr gVertexStoreSize)"

text \<open>The fetch context as set up before the instance loop.\<close>

definition draw_fetchInfo :: "fe_flags \<Rightarrow> DRAW_API_STATE \<Rightarrow> DRAW_WORK \<Rightarrow> SWR_FETCH_CONTEXT" where
  "draw_fetchInfo fl st work =
     (if IsIndexedT fl
      then \<lparr>fc_StartVertex = 0, fc_StartInstance = startInstance work,
            fc_BaseVertex = baseVertex work, fc_CurInstance = 0,
            fc_pLastIndex =
              (let bufEnd = indexBuffer_pIndices st + unat (indexBuffer_size st);
                   l = draw_pLastRequestedIndex fl work
               in if l < bufEnd then l else bufEnd),
            fc_pIndices = IndexPointer 0\<rparr>
      else \<lparr>fc_StartVertex = startVertex work, fc_StartInstance = startInstance work,
            fc_BaseVertex = 0, fc_CurInstance = 0, fc_pLastIndex = 0,
            fc_pIndices = IndexPointer 0\<rparr>)"

text \<open>Moving an index source on by \<open>n\<close> indices of \<open>indexSize\<close> bytes.\<close>

fun advance_indices :: "fetch_indices \<Rightarrow> u32 \<Rightarrow> u32 \<Rightarrow> fetch_indices" where
  "advance_indices (IndexPointer a) n indexSize = IndexPointer (a + unat (n * indexSize))"
| "advance_indices (GeneratedIds v) n indexSize = GeneratedIds (v + n)"

text \<open>
  The state carried through the draw loop: the assembler, the pipeline statistics, and the
  cut mask that the fetch context of the high half holds from its last fetch.
\<close>

record 'pa draw_state =
  ds_pa :: 'pa
  ds_stats :: SWR_STATS_FE
  ds_CutMask_hi :: u32

text \<open>What is done with one assembled group of primitives of the draw.\<close>

definition draw_dispatch ::
  "knobs \<Rightarrow> fe_flags \<Rightarrow> 'pa draw_env \<Rightarrow> DRAW_API_STATE \<Rightarrow> 'pa \<Rightarrow> fe_abort + draw_event list" where
  "draw_dispatch k fl env st pa =
     (let numPrims = pa_NumPrims env pa;
          numPrims_lo = min numPrims (KNOB_SIMD_WIDTH k);
          numPrims_hi = max numPrims (KNOB_SIMD_WIDTH k) - KNOB_SIMD_WIDTH k
      in if HasTessellationT fl
         then (if USE_SIMD16_FRONTEND k
               then Inr (TessellationStagesCall False numPrims_lo
                         # (if numPrims_hi \<noteq> 0 then [TessellationStagesCall True numPrims_hi]
                            else []))
               else Inr [TessellationStagesCall False numPrims])
         else if HasGeometryShaderT fl
         then (if USE_SIMD16_FRONTEND k
               then Inr (GeometryShaderStageCall False numPrims_lo
                         # (if numPrims_hi \<noteq> 0 then [GeometryShaderStageCall True numPrims_hi]
                            else []))
               else Inr [GeometryShaderStageCall False numPrims])
         else (let so = (if HasStreamOutT fl then [StreamOutStageCall] else [])
               in if HasRastT fl
                  then (case (if USE_SIMD16_FRONTEND k then pfnProcessPrims_simd16 st
                              else pfnProcessPrims st) of
                          None \<Rightarrow> Inl Null_function_pointer
                        | Some f \<Rightarrow> Inr (so @ [ProcessPrimsCall f (retval (GenMask numPrims))]))
                  else Inr so))"

text \<open>The \<^verbatim>\<open>do { \<dots> } while (pa.NextPrim())\<close> loop of the draw.\<close>

fun draw_drain ::
  "nat \<Rightarrow> knobs \<Rightarrow> fe_flags \<Rightarrow> 'pa draw_env \<Rightarrow> DRAW_API_STATE \<Rightarrow> 'pa draw_state
   \<Rightarrow> fe_abort + draw_event list \<times> 'pa draw_state" where
  "draw_drain 0 k fl env st s = Inl Fuel_exhausted"
| "draw_drain (Suc fuel) k fl env st s =
     (let stats = ds_stats s;
          (assemble, pa1) = pa_Assemble env (ds_pa s) (VERTEX_POSITION_SLOT k);
          tossed = (KNOB_ENABLE_TOSS_POINTS k \<and> (KNOB_TOSS_FETCH k \<or> KNOB_TOSS_VS k))
      in case (if \<not> tossed \<and> assemble
               then (case draw_dispatch k fl env st pa1 of
                       Inl e \<Rightarrow> Inl e
                     | Inr evs \<Rightarrow>
                         Inr (evs, stats\<lparr>IaPrimitives := UPDATE_STAT_FE (IaPrimitives stats)
                                                           (pa_NumPrims env pa1)\<rparr>))
               else Inr ([], stats)) of
           Inl e \<Rightarrow> Inl e
         | Inr (evs, stats1) \<Rightarrow>
             (let (more, pa2) = pa_NextPrim env pa1;
                  s1 = s\<lparr>ds_pa := pa2, ds_stats := stats1\<rparr>
              in if more
                 then (case draw_drain fuel k fl env st s1 of
                         Inl e \<Rightarrow> Inl e
                       | Inr (evs', s') \<Rightarrow> Inr (evs @ evs', s'))
                 else Inr (evs, s1)))"

text \<open>
  The fetch and vertex-shader step of one batch, taken when \<open>i < endVertex\<close>. A SIMD16
  batch is two 8-wide halves; the high half is fetched and shaded only if it starts below
  \<open>endVertex\<close>.
\<close>

definition draw_fetch_shade ::
  "knobs \<Rightarrow> fe_flags \<Rightarrow> 'pa draw_env \<Rightarrow> u32 \<Rightarrow> u32 \<Rightarrow> u32 \<Rightarrow> SWR_FETCH_CONTEXT \<Rightarrow> u32
   \<Rightarrow> 'pa draw_state \<Rightarrow> draw_event list \<times> 'pa draw_state" where
  "draw_fetch_shade k fl env endVertex instanceNum i fetchInfo_lo indexSize s =
     (let pa = ds_pa s;
          stats = ds_stats s;
          W = KNOB_SIMD_WIDTH k;
          hi = (USE_SIMD16_FRONTEND k \<and> i + W < endVertex);
          fetchInfo_hi = fetchInfo_lo\<lparr>fc_pIndices := advance_indices (fc_pIndices fetchInfo_lo)
                                                          W indexSize\<rparr>;
          fetches = FetchCall i instanceNum fetchInfo_lo
                    # (if hi then [FetchCall (i + W) instanceNum fetchInfo_hi] else []);
          mask_lo = GenerateMask k (endVertex - i);
          mask_hi = GenerateMask k (endVertex - (i + W));
          cut_hi = (if hi then pfnFetchFunc env fetchInfo_hi else ds_CutMask_hi s);
          pa1 = (if IsIndexedT fl
                 then (let p = pa_StoreCutIndices env pa 0 (pfnFetchFunc env fetchInfo_lo)
                       in if USE_SIMD16_FRONTEND k then pa_StoreCutIndices env p 1 cut_hi else p)
                 else pa);
          stats1 = stats\<lparr>IaVertices := UPDATE_STAT_FE (IaVertices stats)
                                          (GetNumInvocations k i endVertex)\<rparr>
      in if KNOB_ENABLE_TOSS_POINTS k \<and> KNOB_TOSS_FETCH k
         then (fetches, \<lparr>ds_pa = pa1, ds_stats = stats1, ds_CutMask_hi = cut_hi\<rparr>)
         else (fetches @ VertexFuncCall i instanceNum mask_lo
                         # (if hi then [VertexFuncCall (i + W) instanceNum mask_hi] else []),
               \<lparr>ds_pa = pa1,
                ds_stats = stats1\<lparr>VsInvocations := UPDATE_STAT_FE (VsInvocations stats1)
                                                     (GetNumInvocations k i endVertex)\<rparr>,
                ds_CutMask_hi = cut_hi\<rparr>))"

text \<open>The \<^verbatim>\<open>while (pa.HasWork())\<close> loop of one instance.\<close>

fun draw_batches ::
  "nat \<Rightarrow> knobs \<Rightarrow> fe_flags \<Rightarrow> 'pa draw_env \<Rightarrow> DRAW_API_STATE \<Rightarrow> u32 \<Rightarrow> u32 \<Rightarrow> u32
   \<Rightarrow> u32 \<Rightarrow> SWR_FETCH_CONTEXT \<Rightarrow> 'pa draw_state
   \<Rightarrow> fe_abort + draw_event list \<times> 'pa draw_state" where
  "draw_batches 0 k fl env st endVertex indexSize instanceNum i fetchInfo s = Inl Fuel_exhausted"
| "draw_batches (Suc fuel) k fl env st endVertex indexSize instanceNum i fetchInfo s =
     (let pa = ds_pa s
      in if pa_HasWork env pa
         then (let pa1 = (if IsIndexedT fl then pa_GetNextVsIndices env pa else pa);
                   pa2 = pa_GetNextVsOutput env pa1;
                   (evsF, s1) = (if i < endVertex
                                 then draw_fetch_shade k fl env endVertex instanceNum i
                                        fetchInfo indexSize (s\<lparr>ds_pa := pa2\<rparr>)
                                 else ([], s\<lparr>ds_pa := pa2\<rparr>))
               in case draw_drain fuel k fl env st s1 of
                    Inl e \<Rightarrow> Inl e
                  | Inr (evsA, s2) \<Rightarrow>
                      (let step = (if USE_SIMD16_FRONTEND k then KNOB_SIMD16_WIDTH k
                                   else KNOB_SIMD_WIDTH k);
                           fetchInfo' = fetchInfo\<lparr>fc_pIndices :=
                                          advance_indices (fc_pIndices fetchInfo) step indexSize\<rparr>
                       in case draw_batches fuel k fl env st endVertex indexSize instanceNum
                                 (i + step) fetchInfo' s2 of
                            Inl e \<Rightarrow> Inl e
                          | Inr (evs', s') \<Rightarrow> Inr (evsF @ evsA @ evs', s')))
         else Inr ([], s))"

text \<open>The body of the loop over the instances.\<close>

definition draw_instance ::
  "nat \<Rightarrow> knobs \<Rightarrow> fe_flags \<Rightarrow> 'pa draw_env \<Rightarrow> DRAW_API_STATE \<Rightarrow> DRAW_WORK \<Rightarrow> u32 \<Rightarrow> u32
   \<Rightarrow> SWR_FETCH_CONTEXT \<Rightarrow> nat \<Rightarrow> 'pa draw_state
   \<Rightarrow> fe_abort + draw_event list \<times> 'pa draw_state" where
  "draw_instance fuel k fl env st work endVertex indexSize fetchInfo instanceNum s =
     (let fetchInfo' = fetchInfo
            \<lparr>fc_pIndices := (if IsIndexedT fl then IndexPointer (pIB work)
                             else GeneratedIds (startVertexID work)),
             fc_CurInstance := of_nat instanceNum\<rparr>
      in case draw_batches fuel k fl env st endVertex indexSize (of_nat instanceNum) 0
                fetchInfo' s of
           Inl e \<Rightarrow> Inl e
         | Inr (evs, s') \<Rightarrow> Inr (evs, s'\<lparr>ds_pa := pa_Reset env (ds_pa s')\<rparr>))"

record 'pa draw_result =
  draw_events :: "draw_event list"
  draw_final :: "'pa draw_state option"
  draw_gVertexStoreSize :: u32
  draw_invalid :: bool

text \<open>
  \<^verbatim>\<open>ProcessDraw<IsIndexedT, IsCutIndexEnabledT, HasTessellationT, HasGeometryShaderT,
  HasStreamOutT, HasRastT>\<close>. With the front-end toss point set the function returns at
  once.
\<close>

definition ProcessDraw ::
  "nat \<Rightarrow> knobs \<Rightarrow> fe_flags \<Rightarrow> 'pa draw_env \<Rightarrow> DRAW_API_STATE \<Rightarrow> DRAW_WORK \<Rightarrow> u32
   \<Rightarrow> SWR_STATS_FE \<Rightarrow> fe_abort + 'pa draw_result" where
  "ProcessDraw fuel k fl env st work gVertexStoreSize stats =
     (if KNOB_ENABLE_TOSS_POINTS k \<and> KNOB_TOSS_QUEUE_FE k
      then Inr \<lparr>draw_events = [], draw_final = None,
                draw_gVertexStoreSize = gVertexStoreSize, draw_invalid = False\<rparr>
      else
       (let sz = draw_indexSize fl work;
            indexSize = retval sz;
            endVertex = draw_endVertex fl st work;
            allocs = (if HasGeometryShaderT fl then [AllocateGsBuffersCall] else [])
                     @ (if HasTessellationT fl then [AllocateTessellationDataCall] else [])
                     @ (if HasStreamOutT fl then [AllocSoPrimData] else []);
            vpp = NumVertsPerPrim (topology st) (draw_gsEnable st);
            numVertsPerPrim = retval vpp
        in case grow_vertex_store fuel k numVertsPerPrim gVertexStoreSize of
             Inl e \<Rightarrow> Inl e
           | Inr storeSize \<Rightarrow>
               (let pa = PA_FACTORY_GetPA env (topology st) (numVerts work) storeSize;
                    fetchInfo = draw_fetchInfo fl st work
                in case for_loop [0 ..< unat (numInstances work)]
                          (draw_instance fuel k fl env st work endVertex indexSize fetchInfo)
                          \<lparr>ds_pa = pa, ds_stats = stats, ds_CutMask_hi = 0\<rparr> of
                     Inl e \<Rightarrow> Inl e
                   | Inr (evs, s') \<Rightarrow>
                       Inr \<lparr>draw_events = allocs @ evs, draw_final = Some s',
                            draw_gVertexStoreSize = storeSize,
                            draw_invalid = (signalled sz \<or> signalled vpp)\<rparr>)))"

text \<open>
  A vertex-shader or fetch call is in range for \<open>endVertex\<close> when its batch starts below
  \<open>endVertex\<close> and, for the vertex shader, its mask is the one of the vertices that remain.
\<close>

definition draw_event_in_range :: "knobs \<Rightarrow> u32 \<Rightarrow> draw_event \<Rightarrow> bool" where
  "draw_event_in_range k endVertex e =
     (case e of
        FetchCall i inst fc \<Rightarrow> i < endVertex
      | VertexFuncCall i inst m \<Rightarrow> i < endVertex \<and> m = GenerateMask k (endVertex - i)
      | _ \<Rightarrow> True)"

text \<open>
  A small draw used in the worked examples: ten vertices of a triangle list, not indexed,
  rasterized, with no other stage. The sample assembler takes two batches and yields three
  triangles after the second.
\<close>

definition draw_sample_env :: "nat draw_env" where
  "draw_sample_env =
     \<lparr>PA_FACTORY_GetPA = (\<lambda>topo n sz. 0),
      pa_HasWork = (\<lambda>c. c < 2),
      pa_GetNextVsIndices = (\<lambda>c. c),
      pa_GetNextVsOutput = (\<lambda>c. c),
      pa_StoreCutIndices = (\<lambda>c h m. c),
      pa_Assemble = (\<lambda>c slot. (c = 1, c)),
      pa_NumPrims = (\<lambda>c. 3),
      pa_NextPrim = (\<lambda>c. (False, c + 1)),
      pa_Reset = (\<lambda>c. 0),
      pfnFetchFunc = (\<lambda>fc. 0)\<rparr>"

definition draw_sample_flags :: fe_flags where
  "draw_sample_flags =
     \<lparr>IsIndexedT = False, IsCutIndexEnabledT = False, HasTessellationT = False,
      HasGeometryShaderT = False, HasStreamOutT = False, HasRastT = True\<rparr>"

definition draw_sample_state :: DRAW_API_STATE where
  "draw_sample_state =
     \<lparr>topology = TOP_TRIANGLE_LIST, draw_gsEnable = False, indexBuffer_pIndices = 0,
      indexBuffer_size = 0, pfnProcessPrims = Some ClipTriangles,
      pfnProcessPrims_simd16 = Some ClipTriangles_simd16\<rparr>"

definition draw_sample_work :: DRAW_WORK where
  "draw_sample_work =
     \<lparr>dw_type = OTHER_FORMAT, numVerts = 10, numInstances = 1, startVertex = 0,
      startInstance = 0, startPrimID = 0, startVertexID = 0, baseVertex = 0, pIB = 0\<rparr>"

definition draw_sample_fuel :: nat where
  "draw_sample_fuel = 4"

definition draw_run_sample :: "fe_abort + nat draw_result" where
  "draw_run_sample =
     ProcessDraw draw_sample_fuel simd8_knobs draw_sample_flags draw_sample_env
       draw_sample_state draw_sample_work 0 zero_stats"

section \<open>The specification's reading of the topology arithmetic\<close>

text \<open>
  These definitions follow the specification's words, in unbounded arithmetic, and are
  compared with the functions above. A topology groups a vertex sequence by one of these
  rules: a list of \<open>k\<close>-vertex primitives; a strip or fan that needs \<open>m\<close> vertices for
  its first primitive and one more for each further one; a strip that needs \<open>m\<close> vertices
  for its first primitive and two more for each further one; a closed loop.
\<close>

datatype boundary_rule = ListOf nat | StripFrom nat | PairStripFrom nat | Loop | Unsupported

fun topology_rule :: "PRIMITIVE_TOPOLOGY \<Rightarrow> boundary_rule" where
  "topology_rule TOP_POINT_LIST = ListOf 1"
| "topology_rule TOP_LINE_LIST = ListOf 2"
| "topology_rule TOP_TRIANGLE_LIST = ListOf 3"
| "topology_rule TOP_RECT_LIST = ListOf 3"
| "topology_rule TOP_QUAD_LIST = ListOf 4"
| "topology_rule TOP_LINE_LIST_ADJ = ListOf 4"
| "topology_rule TOP_TRI_LIST_ADJ = ListOf 6"
| "topology_rule TOP_LINE_STRIP = StripFrom 2"
| "topology_rule TOP_TRIANGLE_DISC = StripFrom 2"
| "topology_rule TOP_TRIANGLE_STRIP = StripFrom 3"
| "topology_rule TOP_TRIANGLE_FAN = StripFrom 3"
| "topology_rule TOP_LISTSTRIP_ADJ = StripFrom 4"
| "topology_rule TOP_QUAD_STRIP = PairStripFrom 4"
| "topology_rule TOP_TRI_STRIP_ADJ = PairStripFrom 6"
| "topology_rule TOP_LINE_LOOP = Loop"
| "topology_rule TOP_PATCHLIST_1 = ListOf 1"
| "topology_rule TOP_PATCHLIST_2 = ListOf 2"
| "topology_rule TOP_PATCHLIST_3 = ListOf 3"
| "topology_rule TOP_PATCHLIST_4 = ListOf 4"
| "topology_rule TOP_PATCHLIST_5 = ListOf 5"
| "topology_rule TOP_PATCHLIST_6 = ListOf 6"
| "topology_rule TOP_PATCHLIST_7 = ListOf 7"
| "topology_rule TOP_PATCHLIST_8 = ListOf 8"
| "topology_rule TOP_PATCHLIST_9 = ListOf 9"
| "topology_rule TOP_PATCHLIST_10 = ListOf 10"
| "topology_rule TOP_PATCHLIST_11 = ListOf 11"
| "topology_rule TOP_PATCHLIST_12 = ListOf 12"
| "topology_rule TOP_PATCHLIST_13 = ListOf 13"
| "topology_rule TOP_PATCHLIST_14 = ListOf 14"
| "topology_rule TOP_PATCHLIST_15 = ListOf 15"
| "topology_rule TOP_PATCHLIST_16 = ListOf 16"
| "topology_rule TOP_PATCHLIST_17 = ListOf 17"
| "topology_rule TOP_PATCHLIST_18 = ListOf 18"
| "topology_rule TOP_PATCHLIST_19 = ListOf 19"
| "topology_rule TOP_PATCHLIST_20 = ListOf 20"
| "topology_rule TOP_PATCHLIST_21 = ListOf 21"
| "topology_rule TOP_PATCHLIST_22 = ListOf 22"
| "topology_rule TOP_PATCHLIST_23 = ListOf 23"
| "topology_rule TOP_PATCHLIST_24 = ListOf 24"
| "topology_rule TOP_PATCHLIST_25 = ListOf 25"
| "topology_rule TOP_PATCHLIST_26 = ListOf 26"
| "topology_rule TOP_PATCHLIST_27 = ListOf 27"
| "topology_rule TOP_PATCHLIST_28 = ListOf 28"
| "topology_rule TOP_PATCHLIST_29 = ListOf 29"
| "topology_rule TOP_PATCHLIST_30 = ListOf 30"
| "topology_rule TOP_PATCHLIST_31 = ListOf 31"
| "topology_rule TOP_PATCHLIST_32 = ListOf 32"
| "topology_rule _ = Unsupported"

text \<open>
  \<open>n\<close> rounded down to the nearest primitive boundary: the largest vertex count not
  above \<open>n\<close> that consists of complete primitives only.
\<close>

fun round_down_to_boundary :: "boundary_rule \<Rightarrow> nat \<Rightarrow> nat" where
  "round_down_to_boundary (ListOf k) n = (n div k) * k"
| "round_down_to_boundary (StripFrom m) n = (if n < m then 0 else n)"
| "round_down_to_boundary (PairStripFrom m) n = (if n < m then 0 else 2 * (n div 2))"
| "round_down_to_boundary Loop n = n"
| "round_down_to_boundary Unsupported n = 0"

text \<open>
  The primitive count of the strip, fan and loop topologies: the vertex count less the
  fixed overlap, with the subtraction stopping at zero (\<open>nat\<close> subtraction does), halved
  for the two strips that advance by vertex pairs, and unchanged for the loop.
\<close>

fun strip_fan_loop_prims :: "PRIMITIVE_TOPOLOGY \<Rightarrow> nat \<Rightarrow> nat option" where
  "strip_fan_loop_prims TOP_TRIANGLE_STRIP n = Some (n - 2)"
| "strip_fan_loop_prims TOP_TRIANGLE_FAN n = Some (n - 2)"
| "strip_fan_loop_prims TOP_TRIANGLE_DISC n = Some (n - 1)"
| "strip_fan_loop_prims TOP_LINE_STRIP n = Some (n - 1)"
| "strip_fan_loop_prims TOP_LISTSTRIP_ADJ n = Some (n - 3)"
| "strip_fan_loop_prims TOP_QUAD_STRIP n = Some ((n - 2) div 2)"
| "strip_fan_loop_prims TOP_TRI_STRIP_ADJ n = Some (n div 2 - 2)"
| "strip_fan_loop_prims TOP_LINE_LOOP n = Some n"
| "strip_fan_loop_prims _ n = None"

text \<open>The least vertex count that forms one primitive of a strip or fan.\<close>

fun strip_fan_min_verts :: "PRIMITIVE_TOPOLOGY \<Rightarrow> nat option" where
  "strip_fan_min_verts TOP_TRIANGLE_STRIP = Some 3"
| "strip_fan_min_verts TOP_TRIANGLE_FAN = Some 3"
| "strip_fan_min_verts TOP_TRIANGLE_DISC = Some 2"
| "strip_fan_min_verts TOP_LINE_STRIP = Some 2"
| "strip_fan_min_verts TOP_LISTSTRIP_ADJ = Some 4"
| "strip_fan_min_verts TOP_QUAD_STRIP = Some 4"
| "strip_fan_min_verts TOP_TRI_STRIP_ADJ = Some 6"
| "strip_fan_min_verts _ = None"

text \<open>The batch width that \<^verbatim>\<open>GetNumInvocations\<close> is compiled with.\<close>

definition invocation_width :: "knobs \<Rightarrow> u32" where
  "invocation_width k = (if USE_SIMD16_FRONTEND k then KNOB_SIMD16_WIDTH k else KNOB_SIMD_WIDTH k)"

section \<open>Word arithmetic used below\<close>

lemma unat_div_mult_le:
  fixes n k :: u32
  shows "unat (n div k * k) = unat n div unat k * unat k"
proof -
  have "unat n div unat k * unat k \<le> unat n" by simp
  also have "\<dots> < 2 ^ LENGTH(32)" by (rule unsigned_less)
  finally have "unat (n div k) * unat k < 2 ^ LENGTH(32)" by (simp add: unat_div)
  then have "unat (n div k * k) = unat (n div k) * unat k"
    by (simp only: unat_mult_lem)
  then show ?thesis by (simp add: unat_div)
qed

lemma u32_less_numeral:
  fixes n :: u32
  shows "n < 2 \<longleftrightarrow> unat n < 2" "n < 3 \<longleftrightarrow> unat n < 3" "n < 4 \<longleftrightarrow> unat n < 4"
  by (simp_all add: word_less_nat_alt)

lemma strip_overlap1:
  fixes n :: u32
  assumes "\<not> n < 2"
  shows "n - 1 \<noteq> 0" "unat (n - 1) = unat n - 1"
  using assms by (auto simp: word_less_nat_alt unat_sub word_le_nat_alt)

lemma strip_overlap2:
  fixes n :: u32
  assumes "\<not> n < 3"
  shows "n - 2 \<noteq> 0" "unat (n - 2) = unat n - 2"
  using assms by (auto simp: word_less_nat_alt unat_sub word_le_nat_alt)

lemma strip_overlap3:
  fixes n :: u32
  assumes "\<not> n < 3"
  shows "n = 3 \<longleftrightarrow> unat n < 4" "unat (n - 3) = unat n - 3"
proof -
  from assms have n3: "3 \<le> unat n" by (simp add: word_less_nat_alt)
  then show "unat (n - 3) = unat n - 3" by (simp add: unat_sub word_le_nat_alt)
  have "n = 3 \<longleftrightarrow> unat n = unat (3 :: u32)" by (simp only: word_unat_eq_iff)
  then show "n = 3 \<longleftrightarrow> unat n < 4" using n3 by auto
qed

lemma quad_strip_arith:
  fixes n :: u32
  assumes "\<not> n < 4"
  shows "(n - 2) div 2 \<noteq> 0"
    and "unat ((n - 2) div 2) = (unat n - 2) div 2"
    and "unat ((n - 2) div 2 * 2 + 2) = 2 * (unat n div 2)"
proof -
  from assms have n4: "4 \<le> unat n" by (simp add: word_less_nat_alt)
  have u2: "unat (n - 2) = unat n - 2" using n4 by (simp add: unat_sub word_le_nat_alt)
  show d: "unat ((n - 2) div 2) = (unat n - 2) div 2" by (simp add: unat_div u2)
  show "(n - 2) div 2 \<noteq> 0"
  proof
    assume "(n - 2) div 2 = 0"
    then have "unat ((n - 2) div 2) = 0" by simp
    with d n4 show False by simp
  qed
  have m: "unat ((n - 2) div 2 * 2) = (unat n - 2) div 2 * 2"
    using unat_div_mult_le [of "n - 2" 2] by (simp add: u2)
  have lt: "unat n < 2 ^ 32" using unsigned_less [of n] by simp
  have "(unat n - 2) div 2 * 2 + 2 < 2 ^ 32" using lt n4 by simp
  then have "unat ((n - 2) div 2 * 2 + 2) = (unat n - 2) div 2 * 2 + 2"
    using m by (simp add: unat_add_lem [THEN iffD1])
  also have "\<dots> = 2 * (unat n div 2)" using n4 by presburger
  finally show "unat ((n - 2) div 2 * 2 + 2) = 2 * (unat n div 2)" .
qed

lemma tri_strip_adj_arith:
  fixes n :: u32
  assumes "\<not> n < 4"
  shows "n div 2 - 2 \<noteq> 0 \<longleftrightarrow> 6 \<le> unat n"
    and "unat (n div 2 - 2) = unat n div 2 - 2"
    and "unat ((n div 2 - 2 + 2) * 2) = 2 * (unat n div 2)"
proof -
  from assms have n4: "4 \<le> unat n" by (simp add: word_less_nat_alt)
  have d: "unat (n div 2) = unat n div 2" by (simp add: unat_div)
  have "2 \<le> unat (n div 2)" using n4 d by simp
  then show s: "unat (n div 2 - 2) = unat n div 2 - 2"
    by (simp add: unat_sub word_le_nat_alt d)
  have "n div 2 - 2 = 0 \<longleftrightarrow> unat (n div 2 - 2) = 0" by (simp add: unat_eq_0)
  then show "n div 2 - 2 \<noteq> 0 \<longleftrightarrow> 6 \<le> unat n" using s n4 by presburger
  have "unat (n div 2 * 2) = unat n div 2 * 2" using unat_div_mult_le [of n 2] by simp
  then show "unat ((n div 2 - 2 + 2) * 2) = 2 * (unat n div 2)" by simp
qed

lemma length_filter_less_upt: "length (filter (\<lambda>i. i < a) [0 ..< w]) = min a w"
  by (induction w) auto

lemma low_bits_lanes:
  fixes a :: u32
  assumes "w < 32"
  shows "length (filter (\<lambda>b. b) (map (\<lambda>i. bit (push_bit (unat a) (1 :: u32) - 1) i) [0 ..< w]))
         = min (unat a) w"
proof -
  have m: "push_bit (unat a) (1 :: u32) - 1 = mask (unat a)"
    by (simp add: mask_eq_decr_exp push_bit_eq_mult)
  have "\<And>i. i \<in> set [0 ..< w] \<Longrightarrow> bit (mask (unat a) :: u32) i = (i < unat a)"
    using assms by (simp add: bit_mask_iff)
  then have "filter (\<lambda>i. bit (mask (unat a) :: u32) i) [0 ..< w] = filter (\<lambda>i. i < unat a) [0 ..< w]"
    by (intro filter_cong) auto
  then show ?thesis
    unfolding m by (simp add: filter_map comp_def length_filter_less_upt)
qed

section \<open>Topology arithmetic: results\<close>

lemma GetNumVerts_GetNumPrims_strips:
  "unat (retval (GetNumVerts TOP_TRIANGLE_STRIP (retval (GetNumPrims TOP_TRIANGLE_STRIP n))))
     = (if unat n < 3 then 0 else unat n)"
  "unat (retval (GetNumVerts TOP_TRIANGLE_FAN (retval (GetNumPrims TOP_TRIANGLE_FAN n))))
     = (if unat n < 3 then 0 else unat n)"
  "unat (retval (GetNumVerts TOP_TRIANGLE_DISC (retval (GetNumPrims TOP_TRIANGLE_DISC n))))
     = (if unat n < 2 then 0 else unat n)"
  "unat (retval (GetNumVerts TOP_LINE_STRIP (retval (GetNumPrims TOP_LINE_STRIP n))))
     = (if unat n < 2 then 0 else unat n)"
  "unat (retval (GetNumVerts TOP_LISTSTRIP_ADJ (retval (GetNumPrims TOP_LISTSTRIP_ADJ n))))
     = (if unat n < 4 then 0 else unat n)"
  "unat (retval (GetNumVerts TOP_QUAD_STRIP (retval (GetNumPrims TOP_QUAD_STRIP n))))
     = (if unat n < 4 then 0 else 2 * (unat n div 2))"
  "unat (retval (GetNumVerts TOP_TRI_STRIP_ADJ (retval (GetNumPrims TOP_TRI_STRIP_ADJ n))))
     = (if unat n < 6 then 0 else 2 * (unat n div 2))"
proof -
  show "unat (retval (GetNumVerts TOP_TRIANGLE_STRIP (retval (GetNumPrims TOP_TRIANGLE_STRIP n))))
     = (if unat n < 3 then 0 else unat n)"
    by (simp add: strip_overlap2 u32_less_numeral [symmetric])
  show "unat (retval (GetNumVerts TOP_TRIANGLE_FAN (retval (GetNumPrims TOP_TRIANGLE_FAN n))))
     = (if unat n < 3 then 0 else unat n)"
    by (simp add: strip_overlap2 u32_less_numeral [symmetric])
  show "unat (retval (GetNumVerts TOP_TRIANGLE_DISC (retval (GetNumPrims TOP_TRIANGLE_DISC n))))
     = (if unat n < 2 then 0 else unat n)"
    by (simp add: strip_overlap1 u32_less_numeral [symmetric])
  show "unat (retval (GetNumVerts TOP_LINE_STRIP (retval (GetNumPrims TOP_LINE_STRIP n))))
     = (if unat n < 2 then 0 else unat n)"
    by (simp add: strip_overlap1 u32_less_numeral [symmetric])
  show "unat (retval (GetNumVerts TOP_LISTSTRIP_ADJ (retval (GetNumPrims TOP_LISTSTRIP_ADJ n))))
     = (if unat n < 4 then 0 else unat n)"
  proof (cases "n < 3")
    case True
    then show ?thesis by (simp add: u32_less_numeral)
  next
    case False
    then show ?thesis using strip_overlap3 [OF False] by (simp add: u32_less_numeral)
  qed
  show "unat (retval (GetNumVerts TOP_QUAD_STRIP (retval (GetNumPrims TOP_QUAD_STRIP n))))
     = (if unat n < 4 then 0 else 2 * (unat n div 2))"
    by (simp add: quad_strip_arith u32_less_numeral [symmetric])
  show "unat (retval (GetNumVerts TOP_TRI_STRIP_ADJ (retval (GetNumPrims TOP_TRI_STRIP_ADJ n))))
     = (if unat n < 6 then 0 else 2 * (unat n div 2))"
    using tri_strip_adj_arith [of n] by (auto simp: u32_less_numeral)
qed

text \<open>
  C1 (as the code has it). For every topology \<open>T\<close> and count \<open>n\<close>,
  \<open>GetNumVerts T (GetNumPrims T n)\<close> is \<open>n\<close> rounded down to the nearest primitive boundary
  of \<open>T\<close>: for a list topology the largest multiple of its per-primitive vertex count not
  above \<open>n\<close>; for triangle strip, triangle fan, triangle disc, line strip and line strip
  with adjacency \<open>n\<close> itself once \<open>n\<close> reaches the minimum for one primitive and 0 below
  it; for quad strip and triangle strip with adjacency the largest even number not above
  \<open>n\<close> once \<open>n\<close> reaches the minimum (4 and 6) and 0 below it; for line loop \<open>n\<close>
  itself; and 0 for an unsupported topology.
\<close>

theorem GetNumVerts_GetNumPrims_boundary:
  "unat (retval (GetNumVerts T (retval (GetNumPrims T n))))
     = round_down_to_boundary (topology_rule T) (unat n)"
  by (cases T;
      ((simp only: GetNumVerts_GetNumPrims_strips topology_rule.simps round_down_to_boundary.simps; fail)
       | simp add: unat_div_mult_le))


text \<open>
  The claim as first stated lets every strip keep \<open>n\<close> itself once one primitive can be
  formed. Five vertices of a quad strip form one quad, yet only four vertices survive.
\<close>

theorem quad_strip_five_vertices_pruned:
  "retval (GetNumPrims TOP_QUAD_STRIP 5) = 1
   \<and> retval (GetNumVerts TOP_QUAD_STRIP (retval (GetNumPrims TOP_QUAD_STRIP 5))) \<noteq> 5"
  by simp

lemma GetNumPrims_strip_fan_values:
  "GetNumPrims TOP_TRIANGLE_STRIP n = Normal (if n < 3 then 0 else n - 2)"
  "GetNumPrims TOP_TRIANGLE_FAN n = Normal (if n < 3 then 0 else n - 2)"
  "GetNumPrims TOP_TRIANGLE_DISC n = Normal (if n < 2 then 0 else n - 1)"
  "GetNumPrims TOP_LINE_STRIP n = Normal (if n < 2 then 0 else n - 1)"
  "GetNumPrims TOP_LISTSTRIP_ADJ n = Normal (if n < 3 then 0 else n - 3)"
  "GetNumPrims TOP_QUAD_STRIP n = Normal (if n < 4 then 0 else (n - 2) div 2)"
  "GetNumPrims TOP_TRI_STRIP_ADJ n = Normal (if n < 4 then 0 else n div 2 - 2)"
  "GetNumPrims TOP_LINE_LOOP n = Normal n"
  by simp_all

lemma GetNumPrims_strip_fan_unat:
  "unat (if n < 3 then 0 else n - 2 :: u32) = unat n - 2"
  "unat (if n < 2 then 0 else n - 1 :: u32) = unat n - 1"
  "unat (if n < 3 then 0 else n - 3 :: u32) = unat n - 3"
  "unat (if n < 4 then 0 else (n - 2) div 2 :: u32) = (unat n - 2) div 2"
  "unat (if n < 4 then 0 else n div 2 - 2 :: u32) = unat n div 2 - 2"
proof -
  show "unat (if n < 3 then 0 else n - 2 :: u32) = unat n - 2"
    by (cases "n < 3") (simp_all add: strip_overlap2 u32_less_numeral)
  show "unat (if n < 2 then 0 else n - 1 :: u32) = unat n - 1"
    by (cases "n < 2") (simp_all add: strip_overlap1 u32_less_numeral)
  show "unat (if n < 3 then 0 else n - 3 :: u32) = unat n - 3"
    by (cases "n < 3") (simp_all add: strip_overlap3 u32_less_numeral)
  show "unat (if n < 4 then 0 else (n - 2) div 2 :: u32) = (unat n - 2) div 2"
    by (cases "n < 4") (simp_all add: quad_strip_arith u32_less_numeral)
  show "unat (if n < 4 then 0 else n div 2 - 2 :: u32) = unat n div 2 - 2"
    by (cases "n < 4") (simp_all add: tri_strip_adj_arith u32_less_numeral)
qed

lemma GetNumPrims_below_minimum:
  "unat n < 3 \<Longrightarrow> (if n < 3 then 0 else n - 2 :: u32) = 0"
  "unat n < 2 \<Longrightarrow> (if n < 2 then 0 else n - 1 :: u32) = 0"
  "unat n < 4 \<Longrightarrow> (if n < 3 then 0 else n - 3 :: u32) = 0"
  "unat n < 4 \<Longrightarrow> (if n < 4 then 0 else (n - 2) div 2 :: u32) = 0"
  "unat n < 6 \<Longrightarrow> (if n < 4 then 0 else n div 2 - 2 :: u32) = 0"
proof -
  show "unat n < 3 \<Longrightarrow> (if n < 3 then 0 else n - 2 :: u32) = 0"
    by (simp add: u32_less_numeral)
  show "unat n < 2 \<Longrightarrow> (if n < 2 then 0 else n - 1 :: u32) = 0"
    by (simp add: u32_less_numeral)
  show "unat n < 4 \<Longrightarrow> (if n < 3 then 0 else n - 3 :: u32) = 0"
    using strip_overlap3 (1) [of n] by (simp add: u32_less_numeral)
  show "unat n < 4 \<Longrightarrow> (if n < 4 then 0 else (n - 2) div 2 :: u32) = 0"
    by (simp add: u32_less_numeral)
  show "unat n < 6 \<Longrightarrow> (if n < 4 then 0 else n div 2 - 2 :: u32) = 0"
    using tri_strip_adj_arith (1) [of n] by auto
qed

text \<open>
  C4 (as the code has it). For triangle strip, triangle fan, triangle disc, line strip and
  line strip with adjacency, \<open>GetNumPrims\<close> subtracts the fixed overlap (2, 2, 1, 1, 3),
  stopping at zero; for quad strip it is \<open>(n - 2) div 2\<close> and for triangle strip with
  adjacency \<open>n div 2 - 2\<close>, both stopping at zero; each of these is 0 whenever \<open>n\<close> is below
  the minimum for one primitive. For line loop \<open>GetNumPrims\<close> returns \<open>n\<close> unchanged, for
  every \<open>n\<close>. None of these topologies signals an invalid-usage condition.
\<close>

theorem GetNumPrims_strip_fan_loop:
  assumes "strip_fan_loop_prims T (unat n) = Some p"
  shows "\<not> signalled (GetNumPrims T n) \<and> unat (retval (GetNumPrims T n)) = p
         \<and> (\<forall>m. strip_fan_min_verts T = Some m \<longrightarrow> unat n < m \<longrightarrow> GetNumPrims T n = Normal 0)"
  using assms
  by (cases T;
      simp only: strip_fan_loop_prims.simps strip_fan_min_verts.simps GetNumPrims_strip_fan_values
        GetNumPrims_strip_fan_unat signalled.simps retval.simps option.simps;
      auto simp: GetNumPrims_below_minimum)

theorem GetNumPrims_strip_fan_loop_witness:
  "strip_fan_loop_prims TOP_TRIANGLE_STRIP (unat (5 :: u32)) = Some 3
   \<and> unat (retval (GetNumPrims TOP_TRIANGLE_STRIP 5)) = 3
   \<and> strip_fan_loop_prims TOP_LINE_STRIP (unat (1 :: u32)) = Some 0
   \<and> strip_fan_min_verts TOP_LINE_STRIP = Some 2 \<and> unat (1 :: u32) < 2
   \<and> GetNumPrims TOP_LINE_STRIP 1 = Normal 0"
  using GetNumPrims_strip_fan_loop [of TOP_TRIANGLE_STRIP 5 3]
    GetNumPrims_strip_fan_loop [of TOP_LINE_STRIP 1 0]
  by simp

text \<open>
  The claim as first stated counts line loop among the topologies that return 0 below two
  vertices. One vertex of a line loop is counted as one primitive.
\<close>

theorem line_loop_single_vertex_counted:
  "retval (GetNumPrims TOP_LINE_LOOP 1) \<noteq> 0"
  by simp

section \<open>SIMD batch scheduling: results\<close>

lemma GetNumInvocations_min:
  assumes "curIndex \<le> maxIndex"
  shows "unat (GetNumInvocations k curIndex maxIndex)
         = min (unat (invocation_width k)) (unat maxIndex - unat curIndex)"
proof -
  have r: "unat (maxIndex - curIndex) = unat maxIndex - unat curIndex"
    using assms by (simp add: unat_sub)
  show ?thesis
    by (simp add: GetNumInvocations_def invocation_width_def Let_def word_le_nat_alt r)
qed

lemma GenerateMask_popcount:
  assumes "KNOB_SIMD_WIDTH k < 32"
  shows "popcount (GenerateMask k n) = min (unat (KNOB_SIMD_WIDTH k)) (unat n)"
proof -
  define a where "a = (if n \<ge> KNOB_SIMD_WIDTH k then KNOB_SIMD_WIDTH k else n)"
  have ua: "unat a = min (unat (KNOB_SIMD_WIDTH k)) (unat n)"
    by (simp add: a_def word_le_nat_alt)
  have w: "unat (KNOB_SIMD_WIDTH k) < 32"
    using assms by (simp add: word_less_nat_alt)
  show ?thesis
  proof (cases "a > 0")
    case True
    then have "popcount (GenerateMask k n)
        = length (filter (\<lambda>b. b)
            (map (\<lambda>i. bit (push_bit (unat a) (1 :: u32) - 1) i) [0 ..< unat (KNOB_SIMD_WIDTH k)]))"
      unfolding GenerateMask_def popcount_def vMask_def Let_def a_def [symmetric] by simp
    also have "\<dots> = min (unat a) (unat (KNOB_SIMD_WIDTH k))"
      by (rule low_bits_lanes [OF w])
    finally show ?thesis by (simp add: ua)
  next
    case False
    then have a0: "a = 0" by (simp add: word_greater_zero_iff)
    then have "popcount (GenerateMask k n) = 0"
      unfolding GenerateMask_def popcount_def vMask_def Let_def a_def [symmetric] by simp
    then show ?thesis using ua a0 by simp
  qed
qed

text \<open>
  C7 (as the code has it). For \<open>curIndex \<le> maxIndex\<close>, \<open>GetNumInvocations\<close> is
  \<open>min W\<^sub>i (maxIndex - curIndex)\<close>, where \<open>W\<^sub>i\<close> is \<^verbatim>\<open>KNOB_SIMD16_WIDTH\<close> in a SIMD16
  front end and \<^verbatim>\<open>KNOB_SIMD_WIDTH\<close> otherwise; and for every \<open>n\<close> the lane mask of
  \<open>GenerateMask n\<close> has exactly \<open>min KNOB_SIMD_WIDTH n\<close> active lanes, in either build
  (0 when \<open>n = 0\<close>). The two widths are the same only when the SIMD16 front end is off.
\<close>

theorem GetNumInvocations_GenerateMask_widths:
  assumes "curIndex \<le> maxIndex" and "KNOB_SIMD_WIDTH k < 32"
  shows "unat (GetNumInvocations k curIndex maxIndex)
           = min (unat (invocation_width k)) (unat maxIndex - unat curIndex)
         \<and> popcount (GenerateMask k n) = min (unat (KNOB_SIMD_WIDTH k)) (unat n)
         \<and> popcount (GenerateMask k 0) = 0"
  using GetNumInvocations_min [OF assms(1)] GenerateMask_popcount [OF assms(2)]
  by simp

theorem GetNumInvocations_GenerateMask_widths_witness:
  "(8 :: u32) \<le> 11 \<and> KNOB_SIMD_WIDTH simd8_knobs < 32
   \<and> unat (GetNumInvocations simd8_knobs 8 11) = 3
   \<and> popcount (GenerateMask simd8_knobs 3) = 3
   \<and> popcount (GenerateMask simd8_knobs 0) = 0"
  using GetNumInvocations_GenerateMask_widths [of 8 11 simd8_knobs 3]
  by (simp add: simd8_knobs_def invocation_width_def)

text \<open>
  The claim as first stated uses one batch width for both functions. In the SIMD16 front
  end sixteen remaining items give sixteen invocations but a mask of eight lanes.
\<close>

theorem simd16_invocations_exceed_mask_lanes:
  "unat (GetNumInvocations simd16_knobs 0 16) = 16
   \<and> popcount (GenerateMask simd16_knobs 16) = 8"
  by (simp add: GetNumInvocations_def GenerateMask_def vMask_def popcount_def
      simd16_knobs_def simd8_knobs_def upt_rec bit_iff_odd)


section \<open>Stream-out: results\<close>

declare gather_attribs.simps [simp del]

lemma gather_attribs_done:
  "BitScanForward soMask = None \<Longrightarrow> gather_attribs k pa n stride p soMask pd = pd"
  by (subst gather_attribs.simps) simp

lemma gather_attribs_step:
  "BitScanForward soMask = Some slot \<Longrightarrow>
   gather_attribs k pa n stride p soMask pd =
     gather_attribs k pa n stride p (soMask AND NOT (push_bit slot 1))
       (store_prim_attrib n stride (of_nat (slot * 4 * 4 div 4))
          (AssembleSingle pa (of_nat slot + VERTEX_ATTRIB_START_SLOT k) p) pd)"
  by (subst gather_attribs.simps) (simp add: Let_def)

lemma BitScanForward_samples: "BitScanForward 1 = Some 0" "BitScanForward 0 = None"
  by (simp_all add: BitScanForward_def upt_rec)

lemma so_write_back_other_mem:
  "pWriteOffset (pBuffer ctx j) \<noteq> Some a \<Longrightarrow> mem (so_write_back ctx j w) a = mem w a"
  by (auto simp: so_write_back_def Let_def split: option.splits)

lemma so_write_back_this_mem:
  "pWriteOffset (pBuffer ctx i) = Some a \<Longrightarrow>
   mem (so_write_back ctx i w) a = streamOffset (pBuffer ctx i) * 4"
  by (auto simp: so_write_back_def Let_def split: option.splits)

lemma so_write_back_other_dyn:
  "j \<noteq> i \<Longrightarrow> SoWriteOffset (dynState (so_write_back ctx j w)) i = SoWriteOffset (dynState w) i
     \<and> SoWriteOffsetDirty (dynState (so_write_back ctx j w)) i = SoWriteOffsetDirty (dynState w) i"
  by (auto simp: so_write_back_def Let_def split: option.splits)

lemma so_write_back_this_dyn:
  "soWriteEnable (pBuffer ctx i) \<Longrightarrow>
   SoWriteOffset (dynState (so_write_back ctx i w)) i = streamOffset (pBuffer ctx i) * 4
   \<and> SoWriteOffsetDirty (dynState (so_write_back ctx i w)) i"
  by (auto simp: so_write_back_def Let_def split: option.splits)

lemma so_update_stats_keeps_offsets:
  "SoWriteOffset (so_update_stats ctx si d) = SoWriteOffset d"
  "SoWriteOffsetDirty (so_update_stats ctx si d) = SoWriteOffsetDirty d"
  by (simp_all add: so_update_stats_def Let_def)

lemma fold_write_back_soBuffer:
  "soBuffer (fold (so_write_back ctx) js w) = soBuffer w"
  by (induction js arbitrary: w) (auto simp: so_write_back_def Let_def split: option.splits)

lemma fold_write_back_mem:
  assumes "i \<in> set js" "distinct js"
    and "pWriteOffset (pBuffer ctx i) = Some a"
    and "\<forall>j \<in> set js. i < j \<longrightarrow> pWriteOffset (pBuffer ctx j) \<noteq> Some a"
    and "sorted js"
  shows "mem (fold (so_write_back ctx) js w) a = streamOffset (pBuffer ctx i) * 4"
  using assms
proof (induction js arbitrary: w rule: rev_induct)
  case Nil
  then show ?case by simp
next
  case (snoc j js)
  show ?case
  proof (cases "j = i")
    case True
    then show ?thesis using snoc.prems by (simp add: so_write_back_this_mem)
  next
    case False
    with snoc.prems have in_js: "i \<in> set js" by auto
    from snoc.prems have srt: "sorted js" "\<forall>x\<in>set js. x \<le> j"
      by (auto simp: sorted_append)
    with in_js False have "i < j" by force
    with snoc.prems have "pWriteOffset (pBuffer ctx j) \<noteq> Some a" by auto
    moreover have "mem (fold (so_write_back ctx) js w) a = streamOffset (pBuffer ctx i) * 4"
      using snoc.IH [of w] in_js snoc.prems srt by auto
    ultimately show ?thesis by (simp add: so_write_back_other_mem)
  qed
qed

lemma fold_write_back_dyn:
  assumes "i \<in> set js" "distinct js" "soWriteEnable (pBuffer ctx i)"
  shows "SoWriteOffset (dynState (fold (so_write_back ctx) js w)) i = streamOffset (pBuffer ctx i) * 4
         \<and> SoWriteOffsetDirty (dynState (fold (so_write_back ctx) js w)) i"
  using assms
proof (induction js arbitrary: w rule: rev_induct)
  case Nil
  then show ?case by simp
next
  case (snoc j js)
  show ?case
  proof (cases "j = i")
    case True
    then show ?thesis using snoc.prems by (simp add: so_write_back_this_dyn)
  next
    case False
    with snoc.prems have "i \<in> set js" "distinct js" by auto
    from snoc.IH [OF this snoc.prems(3), of w] False show ?thesis
      by (simp add: so_write_back_other_dyn)
  qed
qed

text \<open>
  C6 (as the code has it). Whenever the loop over the primitives ends, \<^verbatim>\<open>StreamOut\<close>
  returns, whatever the stream index, and for each of the four buffers \<open>i\<close>: if the
  descriptor of \<open>i\<close> provides a write-offset pointer and no later buffer's descriptor
  provides the same address, the slot holds the final cursor of \<open>i\<close>, its \<open>streamOffset\<close>
  in bytes; and if write-back is enabled for \<open>i\<close>, the write offset \<open>i\<close> of the dynamic
  state holds that cursor and its dirty flag is set.
\<close>

theorem StreamOut_publishes_final_cursor:
  assumes run: "so_prim_loop k pa st streamIndex w = Inr (pd, soContext)"
    and i: "i < 4"
  shows "\<exists>w'. StreamOut k pa st streamIndex w = Inr w'
     \<and> soBuffer w' = pBuffer soContext
     \<and> (\<forall>a. pWriteOffset (pBuffer soContext i) = Some a
            \<and> (\<forall>j. i < j \<and> j < 4 \<longrightarrow> pWriteOffset (pBuffer soContext j) \<noteq> Some a)
          \<longrightarrow> mem w' a = streamOffset (pBuffer soContext i) * 4)
     \<and> (soWriteEnable (pBuffer soContext i)
          \<longrightarrow> SoWriteOffset (dynState w') i = streamOffset (pBuffer soContext i) * 4
              \<and> SoWriteOffsetDirty (dynState w') i)"
proof -
  define w1 where "w1 = w\<lparr>primData := pd, soBuffer := pBuffer soContext,
                      so_invalid := so_invalid w
                                    \<or> signalled (NumVertsPerPrim (so_binTopology pa) False)\<rparr>"
  define w2 where "w2 = fold (so_write_back soContext) [0 ..< 4] w1"
  define w' where "w' = w2\<lparr>dynState := so_update_stats soContext streamIndex (dynState w2)\<rparr>"
  have res: "StreamOut k pa st streamIndex w = Inr w'"
    by (simp add: StreamOut_def run w1_def w2_def w'_def Let_def)
  have iset: "i \<in> set [0 ..< 4]" using i by simp
  have m: "mem w' a = streamOffset (pBuffer soContext i) * 4"
    if "pWriteOffset (pBuffer soContext i) = Some a"
      and "\<forall>j. i < j \<and> j < 4 \<longrightarrow> pWriteOffset (pBuffer soContext j) \<noteq> Some a" for a
  proof -
    have "mem w2 a = streamOffset (pBuffer soContext i) * 4"
      unfolding w2_def using that by (intro fold_write_back_mem [OF iset]) auto
    then show ?thesis by (simp add: w'_def)
  qed
  have d: "SoWriteOffset (dynState w') i = streamOffset (pBuffer soContext i) * 4
              \<and> SoWriteOffsetDirty (dynState w') i"
    if "soWriteEnable (pBuffer soContext i)"
    using fold_write_back_dyn [OF iset _ that, of w1]
    by (simp add: w'_def w2_def so_update_stats_keeps_offsets)
  have sb: "soBuffer w' = pBuffer soContext"
    by (simp add: w'_def w2_def w1_def fold_write_back_soBuffer)
  show ?thesis using res m d sb by blast
qed


theorem StreamOut_publishes_final_cursor_witness:
  "case StreamOut simd8_knobs so_sample_pa so_sample_state 2 so_sample_world of
     Inl e \<Rightarrow> False
   | Inr w' \<Rightarrow> mem w' 100 = 72 \<and> SoWriteOffset (dynState w') 0 = 72
               \<and> SoWriteOffsetDirty (dynState w') 0"
proof -
  have "\<exists>pd c. so_prim_loop simd8_knobs so_sample_pa so_sample_state 2 so_sample_world = Inr (pd, c)
          \<and> pWriteOffset (pBuffer c 0) = Some 100 \<and> soWriteEnable (pBuffer c 0)
          \<and> streamOffset (pBuffer c 0) = 18
          \<and> (\<forall>j. 0 < j \<and> j < 4 \<longrightarrow> pWriteOffset (pBuffer c j) \<noteq> Some 100)"
    by (simp add: so_prim_loop_def so_sample_pa_def so_sample_state_def so_sample_world_def
        so_sample_func_def Let_def upt_rec gather_attribs_step gather_attribs_done
        BitScanForward_samples)
  then obtain pd c where
    run: "so_prim_loop simd8_knobs so_sample_pa so_sample_state 2 so_sample_world = Inr (pd, c)"
    and c: "pWriteOffset (pBuffer c 0) = Some 100" "soWriteEnable (pBuffer c 0)"
      "streamOffset (pBuffer c 0) = 18"
      "\<forall>j. 0 < j \<and> j < 4 \<longrightarrow> pWriteOffset (pBuffer c j) \<noteq> Some 100"
    by blast
  from StreamOut_publishes_final_cursor [OF run, of 0] c
  show ?thesis by auto
qed

text \<open>
  The claim as first stated gives the slot of every buffer that has one. When the
  descriptors of buffers 0 and 3 point at the same slot, the write-back of buffer 3 comes
  last: the slot holds 20, the cursor of buffer 3, and not 72, the cursor of buffer 0.
\<close>

theorem shared_write_offset_slot_holds_last_cursor:
  "map_sum id (so_cursor_and_slot 0 100)
     (StreamOut simd8_knobs so_sample_pa so_sample_state 2 so_shared_slot_world)
   = Inr (Some 100, 72, 20)"
  by (simp add: so_cursor_and_slot_def StreamOut_def so_prim_loop_def so_write_back_def so_update_stats_def
      so_sample_pa_def so_sample_state_def so_sample_world_def so_shared_slot_world_def
      so_sample_func_def NumVertsPerPrim_def UPDATE_STAT_FE_def Let_def upt_rec
      gather_attribs_step gather_attribs_done BitScanForward_samples)


section \<open>Geometry-shader stage: results\<close>

lemma for_loop_all:
  assumes "for_loop js body s = Inr (evs, s')"
    and "\<And>j s evs1 s1. j \<in> set js \<Longrightarrow> body j s = Inr (evs1, s1) \<Longrightarrow> \<forall>e \<in> set evs1. P j e"
  shows "\<forall>e \<in> set evs. \<exists>j \<in> set js. P j e"
  using assms
proof (induction js arbitrary: s evs)
  case Nil
  then show ?case by simp
next
  case (Cons j js)
  from Cons.prems(1) obtain evs1 s1 evs2 where
    b: "body j s = Inr (evs1, s1)" and r: "for_loop js body s1 = Inr (evs2, s')"
    and e: "evs = evs1 @ evs2"
    by (auto split: sum.splits)
  have "\<forall>e \<in> set evs1. P j e" using Cons.prems(2) [OF _ b] by simp
  moreover have "\<forall>e \<in> set evs2. \<exists>j \<in> set js. P j e"
    using Cons.IH [OF r] Cons.prems(2) by simp
  ultimately show ?case using e by auto
qed

lemma for_loop_exists:
  assumes "for_loop js body s = Inr (evs, s')" and "j \<in> set js"
    and "\<And>s evs1 s1. body j s = Inr (evs1, s1) \<Longrightarrow> \<exists>e \<in> set evs1. Q e"
  shows "\<exists>e \<in> set evs. Q e"
  using assms(1,2)
proof (induction js arbitrary: s evs)
  case Nil
  then show ?case by simp
next
  case (Cons i js)
  from Cons.prems(1) obtain evs1 s1 evs2 where
    b: "body i s = Inr (evs1, s1)" and r: "for_loop js body s1 = Inr (evs2, s')"
    and e: "evs = evs1 @ evs2"
    by (auto split: sum.splits)
  show ?case
  proof (cases "i = j")
    case True
    with b have "body j s = Inr (evs1, s1)" by simp
    from assms(3) [OF this] e show ?thesis by auto
  next
    case False
    with Cons.prems(2) have "j \<in> set js" by simp
    from Cons.IH [OF r this] e show ?thesis by auto
  qed
qed

lemma gs_assembled_events:
  assumes "gs_assembled k HasStreamOut HasRast env st f pid p i s pa t = Inr (evs, t', pa')"
  shows "\<forall>e \<in> set evs. event_ok (p, i, s) f e"
  using assms
  by (auto simp: gs_assembled_def Let_def event_ok_def
      split: if_splits option.splits prod.splits)

lemma gs_drain_events:
  assumes "gs_drain fuel k HasStreamOut HasRast env st f pid p i s pa t = Inr (evs, t', pa')"
  shows "\<forall>e \<in> set evs. event_ok (p, i, s) f e"
  using assms
proof (induction fuel arbitrary: pa t evs t' pa')
  case 0
  then show ?case by simp
next
  case (Suc fuel)
  obtain assemble pa1 where a: "cut_Assemble env pa (VERTEX_POSITION_SLOT k) = (assemble, pa1)"
    by force
  from Suc.prems a obtain evsA t1 pa2 where
    b: "(if assemble then gs_assembled k HasStreamOut HasRast env st f pid p i s pa1 t
         else Inr ([], t, pa1)) = Inr (evsA, t1, pa2)"
    by (auto split: sum.splits)
  have okA: "\<forall>e \<in> set evsA. event_ok (p, i, s) f e"
    using b gs_assembled_events by (cases assemble) fastforce+
  obtain more pa3 where c: "cut_NextPrim env pa2 = (more, pa3)" by force
  show ?case
  proof (cases more)
    case True
    with Suc.prems a b c obtain evsB where
      d: "gs_drain fuel k HasStreamOut HasRast env st f pid p i s pa3 t1 = Inr (evsB, t', pa')"
      and e: "evs = evsA @ evsB"
      by (auto split: sum.splits)
    from Suc.IH [OF d] okA e show ?thesis by auto
  next
    case False
    with Suc.prems a b c have "evs = evsA" by (auto split: sum.splits)
    with okA show ?thesis by simp
  qed
qed

lemma gs_stream_output_events:
  assumes "gs_stream_output fuel k HasStreamOut HasRast env st f pid p i s pa t = Inr (evs, t', pa')"
  shows "\<forall>e \<in> set evs. event_ok (p, i, s) f e"
  using assms
proof (induction fuel arbitrary: pa t evs t' pa')
  case 0
  then show ?case by simp
next
  case (Suc fuel)
  obtain more pa1 where a: "GetNextStreamOutput env pa = (more, pa1)" by force
  show ?case
  proof (cases more)
    case True
    with Suc.prems a obtain evsA t1 pa2 evsB where
      b: "gs_drain fuel k HasStreamOut HasRast env st f pid p i s pa1 t = Inr (evsA, t1, pa2)"
      and d: "gs_stream_output fuel k HasStreamOut HasRast env st f pid p i s pa2 t1
              = Inr (evsB, t', pa')"
      and e: "evs = evsA @ evsB"
      by (auto split: sum.splits)
    from gs_drain_events [OF b] Suc.IH [OF d] e show ?thesis by auto
  next
    case False
    with Suc.prems a have "evs = []" by auto
    then show ?thesis by simp
  qed
qed

lemma gs_stream_events:
  assumes "gs_stream fuel k HasStreamOut HasRast env st f pid pSC p i n pBase pCutBase s x
           = Inr (evs, x')"
  shows "(\<forall>e \<in> set evs. event_ok (p, i, s) f e \<and> stream_processed HasStreamOut st s)
         \<and> (stream_processed HasStreamOut st s \<longrightarrow> (\<exists>a. PaConstruct p i s a \<in> set evs))"
  using assms
  by (auto simp: gs_stream_def Let_def stream_processed_def event_ok_def
      split: if_splits sum.splits prod.splits dest!: gs_stream_output_events)


lemma gs_instance_events:
  assumes "gs_instance fuel k HasStreamOut HasRast env st f pid pSC bi pVertexCount p pInst pCB i x
           = Inr (evs, x')"
  shows "\<forall>e \<in> set evs. \<exists>s \<in> set [0 ..< unat (MAX_SO_STREAMS k)].
           (event_ok (p, i, s) f e \<and> stream_processed HasStreamOut st s) \<and> pVertexCount p \<noteq> 0"
proof (cases "pVertexCount p = 0")
  case True
  with assms show ?thesis by (simp add: gs_instance_def)
next
  case False
  with assms have run: "for_loop [0 ..< unat (MAX_SO_STREAMS k)]
      (gs_stream fuel k HasStreamOut HasRast env st f pid pSC p i (pVertexCount p)
         (pInst + unat (of_nat i * vertexInstanceStride bi))
         (pCB + unat (of_nat i * cutInstanceStride bi))) x = Inr (evs, x')"
    by (simp add: gs_instance_def Let_def)
  have "\<forall>e \<in> set evs. \<exists>s \<in> set [0 ..< unat (MAX_SO_STREAMS k)].
          event_ok (p, i, s) f e \<and> stream_processed HasStreamOut st s"
  proof (rule for_loop_all [OF run])
    fix j y evs1 y1
    assume "gs_stream fuel k HasStreamOut HasRast env st f pid pSC p i (pVertexCount p)
         (pInst + unat (of_nat i * vertexInstanceStride bi))
         (pCB + unat (of_nat i * cutInstanceStride bi)) j y = Inr (evs1, y1)"
    from gs_stream_events [OF this]
    show "\<forall>e \<in> set evs1. event_ok (p, i, j) f e \<and> stream_processed HasStreamOut st j"
      by simp
  qed
  with False show ?thesis by simp
qed

lemma gs_instance_constructs:
  assumes "gs_instance fuel k HasStreamOut HasRast env st f pid pSC bi pVertexCount p pInst pCB i x
           = Inr (evs, x')"
    and "pVertexCount p \<noteq> 0" and "s < unat (MAX_SO_STREAMS k)"
    and "stream_processed HasStreamOut st s"
  shows "\<exists>e \<in> set evs. \<exists>a. e = PaConstruct p i s a"
proof -
  from assms(1,2) have run: "for_loop [0 ..< unat (MAX_SO_STREAMS k)]
      (gs_stream fuel k HasStreamOut HasRast env st f pid pSC p i (pVertexCount p)
         (pInst + unat (of_nat i * vertexInstanceStride bi))
         (pCB + unat (of_nat i * cutInstanceStride bi))) x = Inr (evs, x')"
    by (simp add: gs_instance_def Let_def)
  have s: "s \<in> set [0 ..< unat (MAX_SO_STREAMS k)]" using assms(3) by simp
  show ?thesis
  proof (rule for_loop_exists [OF run s])
    fix y evs1 y1
    assume "gs_stream fuel k HasStreamOut HasRast env st f pid pSC p i (pVertexCount p)
         (pInst + unat (of_nat i * vertexInstanceStride bi))
         (pCB + unat (of_nat i * cutInstanceStride bi)) s y = Inr (evs1, y1)"
    from gs_stream_events [OF this] assms(4)
    show "\<exists>e \<in> set evs1. \<exists>a. e = PaConstruct p i s a" by auto
  qed
qed

lemma gs_input_prim_events:
  assumes "gs_input_prim fuel k HasStreamOut HasRast env st f pid pGsOut pCut pSC bi pVertexCount p x
           = Inr (evs, x')"
  shows "\<forall>e \<in> set evs. \<exists>i \<in> set [0 ..< unat (instanceCount (gsState st))].
           \<exists>s \<in> set [0 ..< unat (MAX_SO_STREAMS k)].
             (event_ok (p, i, s) f e \<and> stream_processed HasStreamOut st s) \<and> pVertexCount p \<noteq> 0"
proof -
  from assms have run: "for_loop [0 ..< unat (instanceCount (gsState st))]
      (gs_instance fuel k HasStreamOut HasRast env st f pid pSC bi pVertexCount p
         (pGsOut + unat (of_nat p * vertexPrimitiveStride bi))
         (pCut + unat (of_nat p * cutPrimitiveStride bi))) x = Inr (evs, x')"
    by (simp add: gs_input_prim_def Let_def)
  show ?thesis
  proof (rule for_loop_all [OF run])
    fix j y evs1 y1
    assume "gs_instance fuel k HasStreamOut HasRast env st f pid pSC bi pVertexCount p
         (pGsOut + unat (of_nat p * vertexPrimitiveStride bi))
         (pCut + unat (of_nat p * cutPrimitiveStride bi)) j y = Inr (evs1, y1)"
    from gs_instance_events [OF this]
    show "\<forall>e \<in> set evs1. \<exists>s \<in> set [0 ..< unat (MAX_SO_STREAMS k)].
             (event_ok (p, j, s) f e \<and> stream_processed HasStreamOut st s) \<and> pVertexCount p \<noteq> 0" .
  qed
qed

lemma gs_input_prim_constructs:
  assumes "gs_input_prim fuel k HasStreamOut HasRast env st f pid pGsOut pCut pSC bi pVertexCount p x
           = Inr (evs, x')"
    and "pVertexCount p \<noteq> 0" and "i < unat (instanceCount (gsState st))"
    and "s < unat (MAX_SO_STREAMS k)" and "stream_processed HasStreamOut st s"
  shows "\<exists>e \<in> set evs. \<exists>a. e = PaConstruct p i s a"
proof -
  from assms(1) have run: "for_loop [0 ..< unat (instanceCount (gsState st))]
      (gs_instance fuel k HasStreamOut HasRast env st f pid pSC bi pVertexCount p
         (pGsOut + unat (of_nat p * vertexPrimitiveStride bi))
         (pCut + unat (of_nat p * cutPrimitiveStride bi))) x = Inr (evs, x')"
    by (simp add: gs_input_prim_def Let_def)
  have i: "i \<in> set [0 ..< unat (instanceCount (gsState st))]" using assms(3) by simp
  show ?thesis
  proof (rule for_loop_exists [OF run i])
    fix y evs1 y1
    assume "gs_instance fuel k HasStreamOut HasRast env st f pid pSC bi pVertexCount p
         (pGsOut + unat (of_nat p * vertexPrimitiveStride bi))
         (pCut + unat (of_nat p * cutPrimitiveStride bi)) i y = Inr (evs1, y1)"
    from gs_instance_constructs [OF this assms(2,4,5)]
    show "\<exists>e \<in> set evs1. \<exists>a. e = PaConstruct p i s a" .
  qed
qed

lemma gs_execute_events:
  assumes "for_loop js (gs_execute k env bi n) x = Inr (evs, x')"
  shows "\<forall>e \<in> set evs. event_key e = None"
proof -
  have "\<forall>e \<in> set evs. \<exists>j \<in> set js. event_key e = None"
  proof (rule for_loop_all [OF assms])
    fix j y evs1 y1
    assume "gs_execute k env bi n j y = Inr (evs1, y1)"
    then show "\<forall>e \<in> set evs1. event_key e = None"
      by (auto simp: gs_execute_def Let_def split: prod.splits)
  qed
  then show ?thesis by simp
qed

lemma for_loop_append:
  "for_loop (xs @ ys) body s =
     (case for_loop xs body s of
        Inl e \<Rightarrow> Inl e
      | Inr (evs1, s1) \<Rightarrow>
          (case for_loop ys body s1 of
             Inl e \<Rightarrow> Inl e
           | Inr (evs2, s2) \<Rightarrow> Inr (evs1 @ evs2, s2)))"
  by (induction xs arbitrary: s) (auto split: sum.splits)

text \<open>
  After the first loop the context holds the vertex counts that the call for the last
  instance wrote: each call is made on the same context.
\<close>

lemma gs_execute_last_counts:
  assumes "for_loop [0 ..< n] (gs_execute k env bi nip) (c, m) = Inr (evs, c', m')" and "0 < n"
  shows "\<exists>c0 m0. vertexCount c' = vertexCount (fst (pfnGsFunc env
            (c0\<lparr>gs_InstanceID := of_nat (n - 1), gs_mask := GenerateMask k nip\<rparr>) m0))"
proof -
  from assms(2) have "[0 ..< n] = [0 ..< n - 1] @ [n - 1]"
    by (metis Suc_pred' upt_Suc_append zero_le)
  with assms(1) obtain evs1 c1 m1 evs2 where
    "gs_execute k env bi nip (n - 1) (c1, m1) = Inr (evs2, c', m')"
    by (auto simp: for_loop_append split: sum.splits)
  then have "vertexCount c' = vertexCount (fst (pfnGsFunc env
            (c1\<lparr>gs_InstanceID := of_nat (n - 1), gs_mask := GenerateMask k nip\<rparr>) m1))"
    by (auto simp: gs_execute_def Let_def split: prod.splits)
  then show ?thesis by blast
qed

text \<open>What a run that reaches the end of the stage is made of.\<close>

lemma GeometryShaderStage_Inr:
  assumes "GeometryShaderStage fuel k HasStreamOut HasRast env st pa pGsOut pCut pSC n8 primID
             tls m stats = Inr r"
  obtains evs1 c1 c2 m2 evs2 m3 tot where
    "for_loop [0 ..< unat (instanceCount (gsState st))]
       (gs_execute k env (gs_bufferInfo k (gsState st)) (gs_numInputPrims k pa n8)) (c1, m)
     = Inr (evs1, c2, m2)"
    and "for_loop [0 ..< unat (gs_numInputPrims k pa n8)]
       (gs_input_prim fuel k HasStreamOut HasRast env st
          (retval (gs_select_clip k HasRast (outputTopology (gsState st)))) primID
          pGsOut pCut pSC (gs_bufferInfo k (gsState st)) (vertexCount c2)) (m2, 0)
     = Inr (evs2, m3, tot)"
    and "gs_events r = evs1 @ evs2" and "gs_tls r = c2"
    and "gs_pfnClipFunc r = retval (gs_select_clip k HasRast (outputTopology (gsState st)))"
    and "gs_invalid_output_topology r
         = signalled (gs_select_clip k HasRast (outputTopology (gsState st)))"
    and "GsInvocations (gs_stats r) = UPDATE_STAT_FE (GsInvocations stats)
           (gs_numInputPrims k pa n8 * instanceCount (gsState st))"
  using assms
  by (auto simp: GeometryShaderStage_def Let_def split: sum.splits prod.splits)

lemma GeometryShaderStage_events:
  assumes "GeometryShaderStage fuel k HasStreamOut HasRast env st pa pGsOut pCut pSC n8 primID
             tls m stats = Inr r"
    and "e \<in> set (gs_events r)" and "event_key e = Some (p, i, s)"
  shows "p < unat (gs_numInputPrims k pa n8) \<and> i < unat (instanceCount (gsState st))
         \<and> s < unat (MAX_SO_STREAMS k) \<and> vertexCount (gs_tls r) p \<noteq> 0
         \<and> stream_processed HasStreamOut st s
         \<and> event_ok (p, i, s) (gs_pfnClipFunc r) e"
proof -
  from assms(1) obtain evs1 c1 c2 m2 evs2 m3 tot where
    l1: "for_loop [0 ..< unat (instanceCount (gsState st))]
       (gs_execute k env (gs_bufferInfo k (gsState st)) (gs_numInputPrims k pa n8)) (c1, m)
     = Inr (evs1, c2, m2)"
    and l2: "for_loop [0 ..< unat (gs_numInputPrims k pa n8)]
       (gs_input_prim fuel k HasStreamOut HasRast env st
          (retval (gs_select_clip k HasRast (outputTopology (gsState st)))) primID
          pGsOut pCut pSC (gs_bufferInfo k (gsState st)) (vertexCount c2)) (m2, 0)
     = Inr (evs2, m3, tot)"
    and ev: "gs_events r = evs1 @ evs2" and tl: "gs_tls r = c2"
    and cf: "gs_pfnClipFunc r = retval (gs_select_clip k HasRast (outputTopology (gsState st)))"
    by (rule GeometryShaderStage_Inr)
  from gs_execute_events [OF l1] assms(3) have "e \<notin> set evs1" by auto
  with assms(2) ev have e2: "e \<in> set evs2" by simp
  have "\<forall>e \<in> set evs2. \<exists>p' \<in> set [0 ..< unat (gs_numInputPrims k pa n8)].
          \<exists>i' \<in> set [0 ..< unat (instanceCount (gsState st))].
          \<exists>s' \<in> set [0 ..< unat (MAX_SO_STREAMS k)].
            (event_ok (p', i', s') (gs_pfnClipFunc r) e \<and> stream_processed HasStreamOut st s')
            \<and> vertexCount c2 p' \<noteq> 0"
    unfolding cf
  proof (rule for_loop_all [OF l2])
    fix j y evs3 y1
    assume "gs_input_prim fuel k HasStreamOut HasRast env st
          (retval (gs_select_clip k HasRast (outputTopology (gsState st)))) primID
          pGsOut pCut pSC (gs_bufferInfo k (gsState st)) (vertexCount c2) j y = Inr (evs3, y1)"
    from gs_input_prim_events [OF this]
    show "\<forall>e \<in> set evs3. \<exists>i' \<in> set [0 ..< unat (instanceCount (gsState st))].
          \<exists>s' \<in> set [0 ..< unat (MAX_SO_STREAMS k)].
            (event_ok (j, i', s') (retval (gs_select_clip k HasRast (outputTopology (gsState st)))) e
             \<and> stream_processed HasStreamOut st s')
            \<and> vertexCount c2 j \<noteq> 0" .
  qed
  with e2 obtain p' i' s' where
    b: "p' < unat (gs_numInputPrims k pa n8)" "i' < unat (instanceCount (gsState st))"
       "s' < unat (MAX_SO_STREAMS k)"
    and ok: "event_ok (p', i', s') (gs_pfnClipFunc r) e" "stream_processed HasStreamOut st s'"
       "vertexCount c2 p' \<noteq> 0"
    by force
  from ok(1) assms(3) have "p' = p" "i' = i" "s' = s" by (auto simp: event_ok_def)
  with b ok tl show ?thesis by simp
qed

lemma GeometryShaderStage_constructs:
  assumes "GeometryShaderStage fuel k HasStreamOut HasRast env st pa pGsOut pCut pSC n8 primID
             tls m stats = Inr r"
    and "p < unat (gs_numInputPrims k pa n8)" and "i < unat (instanceCount (gsState st))"
    and "s < unat (MAX_SO_STREAMS k)" and "vertexCount (gs_tls r) p \<noteq> 0"
    and "stream_processed HasStreamOut st s"
  shows "\<exists>a. PaConstruct p i s a \<in> set (gs_events r)"
proof -
  from assms(1) obtain evs1 c1 c2 m2 evs2 m3 tot where
    l2: "for_loop [0 ..< unat (gs_numInputPrims k pa n8)]
       (gs_input_prim fuel k HasStreamOut HasRast env st
          (retval (gs_select_clip k HasRast (outputTopology (gsState st)))) primID
          pGsOut pCut pSC (gs_bufferInfo k (gsState st)) (vertexCount c2)) (m2, 0)
     = Inr (evs2, m3, tot)"
    and ev: "gs_events r = evs1 @ evs2" and tl: "gs_tls r = c2"
    by (rule GeometryShaderStage_Inr)
  have p: "p \<in> set [0 ..< unat (gs_numInputPrims k pa n8)]" using assms(2) by simp
  from assms(5) tl have nz: "vertexCount c2 p \<noteq> 0" by simp
  have "\<exists>e \<in> set evs2. \<exists>a. e = PaConstruct p i s a"
  proof (rule for_loop_exists [OF l2 p])
    fix y evs3 y1
    assume "gs_input_prim fuel k HasStreamOut HasRast env st
          (retval (gs_select_clip k HasRast (outputTopology (gsState st)))) primID
          pGsOut pCut pSC (gs_bufferInfo k (gsState st)) (vertexCount c2) p y = Inr (evs3, y1)"
    from gs_input_prim_constructs [OF this nz assms(3,4,6)]
    show "\<exists>e \<in> set evs3. \<exists>a. e = PaConstruct p i s a" .
  qed
  with ev show ?thesis by auto
qed


lemma gs_select_clip_rast:
  "gs_select_clip k True topo =
     (case clip_for_topology topo of
        Some f \<Rightarrow> Normal (Some (build_variant k f))
      | None \<Rightarrow> Invalid None)"
  by (cases topo; simp add: gs_select_clip_def build_variant_def)

lemma gs_sample_fuel_Suc: "gs_sample_fuel = Suc (Suc (Suc (Suc 0)))"
  by (simp add: gs_sample_fuel_def eval_nat_numeral)

lemmas gs_sample_defs =
  GeometryShaderStage_def gs_sample_fuel_Suc simd8_knobs_def gs_sample_env_def
  gs_sample_env_late_def gs_sample_gsState_def gs_sample_state_def gs_sample_pa_def
  gs_sample_tls_def zero_memory_def zero_stats_def gs_sample_state_single_def
  gs_sample_state_two_instances_def gs_sample_state_list_output_def
  gs_assemble_inputs_def gs_store_attrib_def gs_bufferInfo_def GsBufferInfo_of_def
  gs_numInputPrims_def gs_execute_def gs_select_clip_def gs_input_prim_def gs_instance_def
  gs_stream_def gs_assembled_def GenerateMask_def vMask_def GenMask_def UPDATE_STAT_FE_def
  NumVertsPerPrim_def AlignUp_def ProcessStreamIdBuffer_def stream_id_nibble_def
  Let_def upt_rec word_le_nat_alt word_less_nat_alt

lemma gs_run_multi_stream_value:
  "\<exists>r. gs_run_multi_stream = Inr r \<and> vertexCount (gs_tls r) 0 = 3
     \<and> gs_events r =
         [GsFuncCall 0 [True, False, False, False, False, False, False, False],
          PaConstruct 0 0 1
            \<lparr>pa_pBase = 4096, pa_numVerts = 3, pa_pCutBuffer = 12288, pa_numAttribs = 1,
             pa_topology = TOP_TRIANGLE_STRIP, pa_processCutVerts = False\<rparr>,
          StreamOutCall 0 0 1 1]"
  by (simp add: gs_run_multi_stream_def gs_sample_defs bit_iff_odd)

lemma gs_run_single_stream_value:
  "\<exists>r. gs_run_single_stream = Inr r
     \<and> gs_events r =
         [GsFuncCall 0 [True, False, False, False, False, False, False, False],
          PaConstruct 0 0 0
            \<lparr>pa_pBase = 4096, pa_numVerts = 3, pa_pCutBuffer = 8192, pa_numAttribs = 1,
             pa_topology = TOP_TRIANGLE_STRIP, pa_processCutVerts = True\<rparr>,
          ClipCall 0 0 0 ClipTriangles 1 (PrimIdFromInput 7) ViewportZero]"
  by (simp add: gs_run_single_stream_def gs_sample_defs bit_iff_odd)

lemma gs_run_list_output_value:
  "\<exists>r. gs_run_list_output = Inr r \<and> vertexCount (gs_tls r) 0 = 0
     \<and> gs_events r = [GsFuncCall 0 [True, False, False, False, False, False, False, False]]
     \<and> GsInvocations (gs_stats r) = 1"
  by (simp add: gs_run_list_output_def gs_sample_defs bit_iff_odd)

text \<open>
  C8. With rasterization enabled the clip function is selected by the output topology
  alone: triangle strip selects \<open>ClipTriangles\<close>, line strip \<open>ClipLines\<close>, point list
  \<open>ClipPoints\<close> (each in the variant of the build); any other output topology signals the
  invalid-configuration assertion and leaves the pointer null. In a run that reaches the
  end of the stage every clip call goes to the selected function.
\<close>

theorem GeometryShaderStage_clip_selection:
  assumes "GeometryShaderStage fuel k HasStreamOut True env st pa pGsOut pCut pSC n8 primID
             tls m stats = Inr r"
  shows "gs_pfnClipFunc r
           = map_option (build_variant k) (clip_for_topology (outputTopology (gsState st)))
         \<and> gs_invalid_output_topology r
           = (clip_for_topology (outputTopology (gsState st)) = None)
         \<and> (\<forall>p i s f mk pid vp. ClipCall p i s f mk pid vp \<in> set (gs_events r) \<longrightarrow>
               Some f = map_option (build_variant k)
                          (clip_for_topology (outputTopology (gsState st))))"
proof -
  from assms obtain evs1 where
    cf: "gs_pfnClipFunc r = retval (gs_select_clip k True (outputTopology (gsState st)))"
    and iv: "gs_invalid_output_topology r
         = signalled (gs_select_clip k True (outputTopology (gsState st)))"
    by (rule GeometryShaderStage_Inr)
  have sel: "gs_pfnClipFunc r
           = map_option (build_variant k) (clip_for_topology (outputTopology (gsState st)))"
    unfolding cf gs_select_clip_rast by (simp split: option.splits)
  have inv: "gs_invalid_output_topology r
           = (clip_for_topology (outputTopology (gsState st)) = None)"
    unfolding iv gs_select_clip_rast by (simp split: option.splits)
  have calls: "Some f = map_option (build_variant k)
                          (clip_for_topology (outputTopology (gsState st)))"
    if "ClipCall p i s f mk pid vp \<in> set (gs_events r)" for p i s f mk pid vp
  proof -
    from GeometryShaderStage_events [OF assms that, of p i s]
    have "event_ok (p, i, s) (gs_pfnClipFunc r) (ClipCall p i s f mk pid vp)" by simp
    then show ?thesis using sel by (auto simp: event_ok_def)
  qed
  from sel inv calls show ?thesis by blast
qed

theorem GeometryShaderStage_clip_selection_witness:
  "(case gs_run_single_stream of
      Inl e \<Rightarrow> False
    | Inr r \<Rightarrow> gs_pfnClipFunc r = Some ClipTriangles \<and> \<not> gs_invalid_output_topology r
               \<and> ClipCall 0 0 0 ClipTriangles 1 (PrimIdFromInput 7) ViewportZero
                   \<in> set (gs_events r))
   \<and> (case gs_run_list_output of
        Inl e \<Rightarrow> False
      | Inr r \<Rightarrow> gs_pfnClipFunc r = None \<and> gs_invalid_output_topology r)"
proof -
  from gs_run_single_stream_value obtain r1 where
    r1: "gs_run_single_stream = Inr r1"
    and e1: "ClipCall 0 0 0 ClipTriangles 1 (PrimIdFromInput 7) ViewportZero \<in> set (gs_events r1)"
    by auto
  from gs_run_list_output_value obtain r2 where r2: "gs_run_list_output = Inr r2" by auto
  from GeometryShaderStage_clip_selection [OF r1 [unfolded gs_run_single_stream_def]]
  have a: "gs_pfnClipFunc r1 = Some ClipTriangles \<and> \<not> gs_invalid_output_topology r1"
    by (simp add: gs_sample_state_single_def gs_sample_state_def gs_sample_gsState_def
        build_variant_def simd8_knobs_def)
  from GeometryShaderStage_clip_selection [OF r2 [unfolded gs_run_list_output_def]]
  have b: "gs_pfnClipFunc r2 = None \<and> gs_invalid_output_topology r2"
    by (simp add: gs_sample_state_list_output_def gs_sample_state_def gs_sample_gsState_def)
  show ?thesis unfolding r1 r2 using a b e1 by simp
qed

text \<open>
  C3 (as the code has it). With multi-stream output, in a run that reaches the end of the
  stage, for every input primitive with a non-zero vertex count, every instance and every
  one of the output streams: the stream is skipped, with no assembler built and neither
  stream-out nor the clipper called for it, exactly when the draw has stream-out enabled
  and the stream's capture is disabled, whether or not it is the stream routed to the
  rasterizer; otherwise an assembler is built for it.
\<close>

theorem GeometryShaderStage_multi_stream_skip:
  assumes "GeometryShaderStage fuel k HasStreamOut HasRast env st pa pGsOut pCut pSC n8 primID
             tls m stats = Inr r"
    and "\<not> isSingleStream (gsState st)"
    and "p < unat (gs_numInputPrims k pa n8)" and "i < unat (instanceCount (gsState st))"
    and "s < unat (MAX_SO_STREAMS k)" and "vertexCount (gs_tls r) p \<noteq> 0"
  shows "(HasStreamOut \<and> \<not> streamEnable st s \<longrightarrow>
            (\<forall>e \<in> set (gs_events r). event_key e \<noteq> Some (p, i, s)))
         \<and> (\<not> (HasStreamOut \<and> \<not> streamEnable st s) \<longrightarrow>
            (\<exists>a. PaConstruct p i s a \<in> set (gs_events r)))"
proof -
  have sp: "stream_processed HasStreamOut st s = (\<not> (HasStreamOut \<and> \<not> streamEnable st s))"
    using assms(2) by (simp add: stream_processed_def)
  have skipped: "event_key e \<noteq> Some (p, i, s)"
    if "HasStreamOut \<and> \<not> streamEnable st s" and "e \<in> set (gs_events r)" for e
  proof
    assume "event_key e = Some (p, i, s)"
    from GeometryShaderStage_events [OF assms(1) that(2) this]
    have "stream_processed HasStreamOut st s" by simp
    with sp that(1) show False by simp
  qed
  have built: "\<exists>a. PaConstruct p i s a \<in> set (gs_events r)"
    if "\<not> (HasStreamOut \<and> \<not> streamEnable st s)"
    using GeometryShaderStage_constructs [OF assms(1,3,4,5,6)] sp that by simp
  from skipped built show ?thesis by blast
qed

theorem GeometryShaderStage_multi_stream_skip_witness:
  "case gs_run_multi_stream of
     Inl e \<Rightarrow> False
   | Inr r \<Rightarrow> (\<forall>e \<in> set (gs_events r). event_key e \<noteq> Some (0, 0, 0))
              \<and> (\<exists>a. PaConstruct 0 0 1 a \<in> set (gs_events r))"
proof -
  from gs_run_multi_stream_value obtain r where
    r: "gs_run_multi_stream = Inr r" and v: "vertexCount (gs_tls r) 0 = 3"
    by auto
  have h: "\<not> isSingleStream (gsState gs_sample_state)"
    "0 < unat (gs_numInputPrims simd8_knobs gs_sample_pa 0)"
    "0 < unat (instanceCount (gsState gs_sample_state))"
    "0 < unat (MAX_SO_STREAMS simd8_knobs)" "1 < unat (MAX_SO_STREAMS simd8_knobs)"
    "vertexCount (gs_tls r) 0 \<noteq> 0"
    using v by (simp_all add: gs_sample_state_def gs_sample_gsState_def gs_numInputPrims_def
        simd8_knobs_def gs_sample_pa_def)
  from GeometryShaderStage_multi_stream_skip
    [OF r [unfolded gs_run_multi_stream_def] h(1) h(2) h(3) h(4) h(6)]
  have a: "\<forall>e \<in> set (gs_events r). event_key e \<noteq> Some (0, 0, 0)"
    by (simp add: gs_sample_state_def)
  from GeometryShaderStage_multi_stream_skip
    [OF r [unfolded gs_run_multi_stream_def] h(1) h(2) h(3) h(5) h(6)]
  have b: "\<exists>a. PaConstruct 0 0 1 a \<in> set (gs_events r)"
    by (simp add: gs_sample_state_def)
  show ?thesis unfolding r using a b by simp
qed

text \<open>
  The claim as first stated has the stream routed to the rasterizer always processed.
  Here stream-out and rasterization are both on, stream 0 goes to the rasterizer and only
  stream 1 is captured: nothing is done for stream 0, the only assembler is the one of
  stream 1, and the clipper is never called.
\<close>

theorem rasterizer_stream_skipped_when_capture_disabled:
  "streamToRasterizer gs_sample_state = 0 \<and> \<not> streamEnable gs_sample_state 0
   \<and> \<not> isSingleStream (gsState gs_sample_state)
   \<and> map_sum id gs_events gs_run_multi_stream =
       Inr [GsFuncCall 0 [True, False, False, False, False, False, False, False],
            PaConstruct 0 0 1
              \<lparr>pa_pBase = 4096, pa_numVerts = 3, pa_pCutBuffer = 12288, pa_numAttribs = 1,
               pa_topology = TOP_TRIANGLE_STRIP, pa_processCutVerts = False\<rparr>,
            StreamOutCall 0 0 1 1]"
  by (simp add: gs_run_multi_stream_def gs_sample_defs bit_iff_odd)

text \<open>
  C10 (as the code has it). The vertex count the stage tests is the one left in the
  thread-local context, per input primitive, once the shader has run for all instances;
  with at least one instance that is the count written by the call for the last instance.
  In a run that reaches the end of the stage, an input primitive whose count is zero is
  skipped for every instance: no assembler is built and neither stream-out nor the clipper
  is called for it. The \<open>GsInvocations\<close> statistic still grows by the number of input
  primitives times the instance count.
\<close>

theorem GeometryShaderStage_zero_vertices_skipped:
  assumes "GeometryShaderStage fuel k HasStreamOut HasRast env st pa pGsOut pCut pSC n8 primID
             tls m stats = Inr r"
  shows "(vertexCount (gs_tls r) p = 0 \<longrightarrow>
            (\<forall>e \<in> set (gs_events r). \<forall>i s. event_key e \<noteq> Some (p, i, s)))
         \<and> GsInvocations (gs_stats r)
             = GsInvocations stats + ucast (gs_numInputPrims k pa n8 * instanceCount (gsState st))
         \<and> (0 < unat (instanceCount (gsState st)) \<longrightarrow>
             (\<exists>c0 m0. vertexCount (gs_tls r) = vertexCount (fst (pfnGsFunc env
                (c0\<lparr>gs_InstanceID := of_nat (unat (instanceCount (gsState st)) - 1),
                    gs_mask := GenerateMask k (gs_numInputPrims k pa n8)\<rparr>) m0))))"
proof -
  from assms obtain evs1 c1 c2 m2 where
    l1: "for_loop [0 ..< unat (instanceCount (gsState st))]
       (gs_execute k env (gs_bufferInfo k (gsState st)) (gs_numInputPrims k pa n8)) (c1, m)
     = Inr (evs1, c2, m2)"
    and tl: "gs_tls r = c2"
    and st: "GsInvocations (gs_stats r) = UPDATE_STAT_FE (GsInvocations stats)
           (gs_numInputPrims k pa n8 * instanceCount (gsState st))"
    by (rule GeometryShaderStage_Inr)
  have skipped: "event_key e \<noteq> Some (p, i, s)"
    if "vertexCount (gs_tls r) p = 0" and "e \<in> set (gs_events r)" for e i s
  proof
    assume "event_key e = Some (p, i, s)"
    from GeometryShaderStage_events [OF assms that(2) this] that(1) show False by simp
  qed
  have last: "\<exists>c0 m0. vertexCount (gs_tls r) = vertexCount (fst (pfnGsFunc env
                (c0\<lparr>gs_InstanceID := of_nat (unat (instanceCount (gsState st)) - 1),
                    gs_mask := GenerateMask k (gs_numInputPrims k pa n8)\<rparr>) m0))"
    if "0 < unat (instanceCount (gsState st))"
    using gs_execute_last_counts [OF l1 that] tl by simp
  from skipped st last show ?thesis by (simp add: UPDATE_STAT_FE_def)
qed

theorem GeometryShaderStage_zero_vertices_skipped_witness:
  "case gs_run_list_output of
     Inl e \<Rightarrow> False
   | Inr r \<Rightarrow> vertexCount (gs_tls r) 0 = 0
              \<and> (\<forall>e \<in> set (gs_events r). \<forall>i s. event_key e \<noteq> Some (0, i, s))
              \<and> GsInvocations (gs_stats r) = 1"
proof -
  from gs_run_list_output_value obtain r where
    r: "gs_run_list_output = Inr r" and v: "vertexCount (gs_tls r) 0 = 0"
    and g: "GsInvocations (gs_stats r) = 1"
    by auto
  from GeometryShaderStage_zero_vertices_skipped [OF r [unfolded gs_run_list_output_def], of 0] v
  have "\<forall>e \<in> set (gs_events r). \<forall>i s. event_key e \<noteq> Some (0, i, s)" by simp
  then show ?thesis unfolding r using v g by simp
qed

text \<open>
  The claim as first stated is about each pair of an input primitive and an instance. With
  two instances of a shader that emits nothing for instance 0 and three vertices for
  instance 1, the pair of primitive 0 and instance 0 is not skipped: an assembler is built
  over its window, with the three vertices of instance 1, and the clipper is called.
\<close>

theorem zero_vertex_instance_processed:
  "vertexCount (fst (pfnGsFunc gs_sample_env_late (gs_sample_tls\<lparr>gs_InstanceID := 0\<rparr>)
                  zero_memory)) 0 = 0
   \<and> map_sum id gs_events gs_run_two_instances =
       Inr [GsFuncCall 0 [True, False, False, False, False, False, False, False],
            GsFuncCall 1 [True, False, False, False, False, False, False, False],
            PaConstruct 0 0 0
              \<lparr>pa_pBase = 4096, pa_numVerts = 3, pa_pCutBuffer = 8192, pa_numAttribs = 1,
               pa_topology = TOP_TRIANGLE_STRIP, pa_processCutVerts = True\<rparr>,
            ClipCall 0 0 0 ClipTriangles 1 (PrimIdFromInput 7) ViewportZero,
            PaConstruct 0 1 0
              \<lparr>pa_pBase = 36864, pa_numVerts = 3, pa_pCutBuffer = 8200, pa_numAttribs = 1,
               pa_topology = TOP_TRIANGLE_STRIP, pa_processCutVerts = True\<rparr>,
            ClipCall 0 1 0 ClipTriangles 1 (PrimIdFromInput 7) ViewportZero]"
  by (simp add: gs_run_two_instances_def gs_sample_defs bit_iff_odd)


section \<open>Tessellation stages: results\<close>





































section \<open>Draw orchestration: results\<close>

lemma GenerateMask_length: "length (GenerateMask k n) = unat (KNOB_SIMD_WIDTH k)"
  by (simp add: GenerateMask_def vMask_def Let_def)

lemma GenerateMask_nth:
  assumes "KNOB_SIMD_WIDTH k < 32" and "j < unat (KNOB_SIMD_WIDTH k)"
  shows "GenerateMask k n ! j \<longleftrightarrow> j < min (unat (KNOB_SIMD_WIDTH k)) (unat n)"
proof -
  define a where "a = (if n \<ge> KNOB_SIMD_WIDTH k then KNOB_SIMD_WIDTH k else n)"
  have ua: "unat a = min (unat (KNOB_SIMD_WIDTH k)) (unat n)"
    by (simp add: a_def word_le_nat_alt)
  have w: "unat (KNOB_SIMD_WIDTH k) < 32"
    using assms(1) by (simp add: word_less_nat_alt)
  have m: "push_bit (unat a) (1 :: u32) - 1 = mask (unat a)"
    by (simp add: mask_eq_decr_exp push_bit_eq_mult)
  show ?thesis
  proof (cases "a > 0")
    case True
    then have "GenerateMask k n ! j = bit (mask (unat a) :: u32) j"
      unfolding GenerateMask_def vMask_def Let_def a_def [symmetric] m [symmetric]
      using assms(2) by simp
    also have "\<dots> \<longleftrightarrow> j < unat a"
      using assms(2) w by (simp add: bit_mask_iff)
    finally show ?thesis by (simp add: ua)
  next
    case False
    then have a0: "a = 0" by (simp add: word_greater_zero_iff)
    then have "\<not> GenerateMask k n ! j"
      unfolding GenerateMask_def vMask_def Let_def a_def [symmetric]
      using assms(2) by simp
    then show ?thesis using ua a0 by simp
  qed
qed

lemma draw_dispatch_in_range:
  assumes "draw_dispatch k fl env st pa = Inr evs"
  shows "\<forall>e \<in> set evs. draw_event_in_range k E e"
  using assms
  by (auto simp: draw_dispatch_def Let_def draw_event_in_range_def
      split: if_splits option.splits)

lemma draw_drain_in_range:
  assumes "draw_drain fuel k fl env st s = Inr (evs, s')"
  shows "\<forall>e \<in> set evs. draw_event_in_range k E e"
  using assms
proof (induction fuel arbitrary: s evs s')
  case 0
  then show ?case by simp
next
  case (Suc fuel)
  obtain assemble pa1 where a: "pa_Assemble env (ds_pa s) (VERTEX_POSITION_SLOT k) = (assemble, pa1)"
    by force
  obtain more pa2 where n: "pa_NextPrim env pa1 = (more, pa2)" by force
  from Suc.prems a n obtain evs1 stats1 where
    b: "(if \<not> (KNOB_ENABLE_TOSS_POINTS k \<and> (KNOB_TOSS_FETCH k \<or> KNOB_TOSS_VS k)) \<and> assemble
               then (case draw_dispatch k fl env st pa1 of
                       Inl e \<Rightarrow> Inl e
                     | Inr evs \<Rightarrow>
                         Inr (evs, (ds_stats s)\<lparr>IaPrimitives :=
                                UPDATE_STAT_FE (IaPrimitives (ds_stats s)) (pa_NumPrims env pa1)\<rparr>))
               else Inr ([], ds_stats s)) = Inr (evs1, stats1)"
    by (auto simp: Let_def split: sum.splits)
  have ok1: "\<forall>e \<in> set evs1. draw_event_in_range k E e"
    using b draw_dispatch_in_range [of k fl env st pa1 _ E]
    by (auto split: if_splits sum.splits)
  show ?case
  proof (cases more)
    case True
    with Suc.prems a n b obtain evs2 where
      r: "draw_drain fuel k fl env st (s\<lparr>ds_pa := pa2, ds_stats := stats1\<rparr>) = Inr (evs2, s')"
      and e: "evs = evs1 @ evs2"
      by (auto simp: Let_def split: sum.splits)
    from Suc.IH [OF r] ok1 e show ?thesis by auto
  next
    case False
    with Suc.prems a n b have "evs = evs1" by (auto simp: Let_def split: sum.splits)
    with ok1 show ?thesis by simp
  qed
qed

lemma draw_fetch_shade_in_range:
  assumes "i < E" and "draw_fetch_shade k fl env E inst i fc sz s = (evs, s')"
  shows "\<forall>e \<in> set evs. draw_event_in_range k E e"
  using assms
  by (auto simp: draw_fetch_shade_def Let_def draw_event_in_range_def split: if_splits)

lemma draw_batches_in_range:
  assumes "draw_batches fuel k fl env st E sz inst i fc s = Inr (evs, s')"
  shows "\<forall>e \<in> set evs. draw_event_in_range k E e"
  using assms
proof (induction fuel arbitrary: i fc s evs s')
  case 0
  then show ?case by simp
next
  case (Suc fuel)
  show ?case
  proof (cases "pa_HasWork env (ds_pa s)")
    case False
    with Suc.prems show ?thesis by (simp add: Let_def)
  next
    case True
    obtain evsF s1 where f: "(if i < E
            then draw_fetch_shade k fl env E inst i fc sz
                   (s\<lparr>ds_pa := pa_GetNextVsOutput env
                      (if IsIndexedT fl then pa_GetNextVsIndices env (ds_pa s) else ds_pa s)\<rparr>)
            else ([], s\<lparr>ds_pa := pa_GetNextVsOutput env
                      (if IsIndexedT fl then pa_GetNextVsIndices env (ds_pa s) else ds_pa s)\<rparr>))
          = (evsF, s1)"
      by force
    have okF: "\<forall>e \<in> set evsF. draw_event_in_range k E e"
    proof (cases "i < E")
      case True
      with f show ?thesis by (simp add: draw_fetch_shade_in_range)
    next
      case False
      with f show ?thesis by auto
    qed
    from Suc.prems True have
      "(case (evsF, s1) of
          (evsF, s1) \<Rightarrow>
            case draw_drain fuel k fl env st s1 of
              Inl x \<Rightarrow> Inl x
            | Inr (evsA, s2) \<Rightarrow>
                case draw_batches fuel k fl env st E sz inst
                       (i + (if USE_SIMD16_FRONTEND k then KNOB_SIMD16_WIDTH k
                             else KNOB_SIMD_WIDTH k))
                       (fc\<lparr>fc_pIndices := advance_indices (fc_pIndices fc)
                            (if USE_SIMD16_FRONTEND k then KNOB_SIMD16_WIDTH k
                             else KNOB_SIMD_WIDTH k) sz\<rparr>) s2 of
                  Inl x \<Rightarrow> Inl x
                | Inr (evs', s') \<Rightarrow> Inr (evsF @ evsA @ evs', s')) = Inr (evs, s')"
      unfolding draw_batches.simps Let_def f [symmetric] by simp
    then obtain evsA s2 evsB i' fc' where
      d: "draw_drain fuel k fl env st s1 = Inr (evsA, s2)"
      and r: "draw_batches fuel k fl env st E sz inst i' fc' s2 = Inr (evsB, s')"
      and e: "evs = evsF @ evsA @ evsB"
      by (auto split: sum.splits)
    from okF draw_drain_in_range [OF d] Suc.IH [OF r] e show ?thesis by auto
  qed
qed

lemma draw_instance_in_range:
  assumes "draw_instance fuel k fl env st work E sz fc inst s = Inr (evs, s')"
  shows "\<forall>e \<in> set evs. draw_event_in_range k E e"
  using assms
  by (auto simp: draw_instance_def Let_def split: sum.splits dest!: draw_batches_in_range)

lemma ProcessDraw_in_range:
  assumes "ProcessDraw fuel k fl env st work g stats = Inr r"
  shows "\<forall>e \<in> set (draw_events r). draw_event_in_range k (draw_endVertex fl st work) e"
proof (cases "KNOB_ENABLE_TOSS_POINTS k \<and> KNOB_TOSS_QUEUE_FE k")
  case True
  with assms show ?thesis by (auto simp: ProcessDraw_def)
next
  case False
  with assms obtain js body s0 evs s' allocs where
    run: "for_loop js body s0 = Inr (evs, s')"
    and body: "body = draw_instance fuel k fl env st work (draw_endVertex fl st work)
                        (retval (draw_indexSize fl work)) (draw_fetchInfo fl st work)"
    and e: "draw_events r = allocs @ evs"
    and al: "allocs = (if HasGeometryShaderT fl then [AllocateGsBuffersCall] else [])
                     @ (if HasTessellationT fl then [AllocateTessellationDataCall] else [])
                     @ (if HasStreamOutT fl then [AllocSoPrimData] else [])"
    by (auto simp: ProcessDraw_def Let_def split: sum.splits)
  have "\<forall>e \<in> set evs. \<exists>j \<in> set js. draw_event_in_range k (draw_endVertex fl st work) e"
  proof (rule for_loop_all [OF run])
    fix j y evs1 y1
    assume "body j y = Inr (evs1, y1)"
    then show "\<forall>e \<in> set evs1. draw_event_in_range k (draw_endVertex fl st work) e"
      unfolding body by (rule draw_instance_in_range)
  qed
  moreover have "\<forall>e \<in> set allocs. draw_event_in_range k (draw_endVertex fl st work) e"
    by (auto simp: al draw_event_in_range_def)
  ultimately show ?thesis using e by auto
qed

text \<open>
  C2. For a draw that is not indexed, \<open>endVertex\<close> is
  \<open>GetNumVerts topology (GetNumPrims topology numVerts)\<close>. In a run that reaches the end of
  \<^verbatim>\<open>ProcessDraw\<close>, every fetch and every vertex-shader call is for a batch whose start
  index is below \<open>endVertex\<close>, and the mask of a vertex-shader call has exactly
  \<open>min KNOB_SIMD_WIDTH (endVertex - i)\<close> active lanes, none of them at or beyond
  \<open>endVertex\<close>.
\<close>

theorem ProcessDraw_prunes_and_masks:
  assumes "ProcessDraw fuel k fl env st work g stats = Inr r"
    and "\<not> IsIndexedT fl" and "KNOB_SIMD_WIDTH k < 32"
  shows "draw_endVertex fl st work
           = retval (GetNumVerts (topology st) (retval (GetNumPrims (topology st) (numVerts work))))
         \<and> (\<forall>i inst fc. FetchCall i inst fc \<in> set (draw_events r) \<longrightarrow>
               i < draw_endVertex fl st work)
         \<and> (\<forall>i inst m. VertexFuncCall i inst m \<in> set (draw_events r) \<longrightarrow>
               i < draw_endVertex fl st work
               \<and> popcount m = min (unat (KNOB_SIMD_WIDTH k))
                                  (unat (draw_endVertex fl st work) - unat i)
               \<and> (\<forall>j < length m. m ! j \<longrightarrow> unat i + j < unat (draw_endVertex fl st work)))"
proof -
  let ?E = "draw_endVertex fl st work"
  have e: "?E = retval (GetNumVerts (topology st) (retval (GetNumPrims (topology st) (numVerts work))))"
    using assms(2) by (simp add: draw_endVertex_def)
  have f: "i < ?E" if "FetchCall i inst fc \<in> set (draw_events r)" for i inst fc
    using ProcessDraw_in_range [OF assms(1)] that by (fastforce simp: draw_event_in_range_def)
  have v: "i < ?E \<and> popcount m = min (unat (KNOB_SIMD_WIDTH k)) (unat ?E - unat i)
           \<and> (\<forall>j < length m. m ! j \<longrightarrow> unat i + j < unat ?E)"
    if "VertexFuncCall i inst m \<in> set (draw_events r)" for i inst m
  proof -
    from ProcessDraw_in_range [OF assms(1)] that
    have lt: "i < ?E" and m: "m = GenerateMask k (?E - i)"
      by (fastforce simp: draw_event_in_range_def)+
    from lt have le: "i \<le> ?E" by simp
    then have sub: "unat (?E - i) = unat ?E - unat i" by (simp add: unat_sub)
    have pc: "popcount m = min (unat (KNOB_SIMD_WIDTH k)) (unat ?E - unat i)"
      unfolding m using GenerateMask_popcount [OF assms(3), of "?E - i"] sub by simp
    have lanes: "unat i + j < unat ?E" if "j < length m" and "m ! j" for j
    proof -
      from that(1) have jw: "j < unat (KNOB_SIMD_WIDTH k)" by (simp add: m GenerateMask_length)
      from GenerateMask_nth [OF assms(3) jw, of "?E - i"] that(2)
      have "j < unat ?E - unat i" by (simp add: m sub)
      then show ?thesis by simp
    qed
    from lt pc lanes show ?thesis by blast
  qed
  from e f v show ?thesis by blast
qed

lemma draw_sample_fuel_Suc: "draw_sample_fuel = Suc (Suc (Suc (Suc 0)))"
  by (simp add: draw_sample_fuel_def eval_nat_numeral)

lemma draw_run_sample_value:
  "\<exists>r. draw_run_sample = Inr r
     \<and> draw_events r =
         [FetchCall 0 0 \<lparr>fc_StartVertex = 0, fc_StartInstance = 0, fc_BaseVertex = 0,
                         fc_CurInstance = 0, fc_pLastIndex = 0, fc_pIndices = GeneratedIds 0\<rparr>,
          VertexFuncCall 0 0 [True, True, True, True, True, True, True, True],
          FetchCall 8 0 \<lparr>fc_StartVertex = 0, fc_StartInstance = 0, fc_BaseVertex = 0,
                         fc_CurInstance = 0, fc_pLastIndex = 0, fc_pIndices = GeneratedIds 8\<rparr>,
          VertexFuncCall 8 0 [True, False, False, False, False, False, False, False],
          ProcessPrimsCall ClipTriangles 7]"
  by (simp add: draw_run_sample_def draw_sample_fuel_Suc ProcessDraw_def draw_instance_def
      draw_fetch_shade_def draw_dispatch_def draw_fetchInfo_def draw_endVertex_def
      draw_indexSize_def draw_sample_env_def draw_sample_flags_def draw_sample_state_def
      draw_sample_work_def simd8_knobs_def zero_stats_def GenerateMask_def vMask_def
      GenMask_def GetNumInvocations_def UPDATE_STAT_FE_def NumVertsPerPrim_def Let_def upt_rec
      word_le_nat_alt word_less_nat_alt bit_iff_odd)

theorem ProcessDraw_prunes_and_masks_witness:
  "draw_endVertex draw_sample_flags draw_sample_state draw_sample_work = 9
   \<and> (case draw_run_sample of
        Inl e \<Rightarrow> False
      | Inr r \<Rightarrow>
          VertexFuncCall 8 0 [True, False, False, False, False, False, False, False]
            \<in> set (draw_events r)
          \<and> popcount [True, False, False, False, False, False, False, False] = 1
          \<and> ProcessPrimsCall ClipTriangles 7 \<in> set (draw_events r))"
proof -
  from draw_run_sample_value obtain r where r: "draw_run_sample = Inr r"
    and v: "VertexFuncCall 8 0 [True, False, False, False, False, False, False, False]
            \<in> set (draw_events r)"
    and c: "ProcessPrimsCall ClipTriangles 7 \<in> set (draw_events r)"
    by auto
  have h: "\<not> IsIndexedT draw_sample_flags" "KNOB_SIMD_WIDTH simd8_knobs < 32"
    by (simp_all add: draw_sample_flags_def simd8_knobs_def)
  note t = ProcessDraw_prunes_and_masks [OF r [unfolded draw_run_sample_def] h]
  from t have e: "draw_endVertex draw_sample_flags draw_sample_state draw_sample_work = 9"
    by (simp add: draw_sample_state_def draw_sample_work_def)
  from t v have "popcount [True, False, False, False, False, False, False, False]
                 = min (unat (KNOB_SIMD_WIDTH simd8_knobs))
                     (unat (draw_endVertex draw_sample_flags draw_sample_state draw_sample_work)
                      - unat (8 :: u32))"
    by blast
  then have p: "popcount [True, False, False, False, False, False, False, False] = 1"
    by (simp add: e simd8_knobs_def)
  show ?thesis unfolding r using e v p c by simp
qed


end
